theory Spec2Isabelle
  imports Main
begin

section \<open>Monomaxia: the simulation core of \<open>monomaxia.c\<close>\<close>

text \<open>
  The program is a two-player duel on a fixed grid. Every C \<open>int\<close> is modelled as a
  mathematical integer, so the additions and decrements of the source are read as exact.
  They are exact in C unless a value is at the limits of \<open>int\<close>; in the states that the
  game reaches, the positions of ships and of active projectiles stay inside the 20 by 10
  map (proved below), velocities and directions are -1, 0 or 1, and health starts at 3 and
  only decreases until the game is over.
  Fixed-size C arrays are lists; the well-formedness predicate \<open>wf_game\<close> below records
  their lengths. Mutation through pointers is explicit state passing.
\<close>

subsection \<open>Constants\<close>

definition MAP_WIDTH :: int where "MAP_WIDTH = 20"
definition MAP_HEIGHT :: int where "MAP_HEIGHT = 10"
definition MAX_PLAYERS :: nat where "MAX_PLAYERS = 2"
definition MAX_PROJECTILES :: nat where "MAX_PROJECTILES = 5"
definition MAX_SPEED :: int where "MAX_SPEED = 1"

subsection \<open>Structs\<close>

text \<open>The fields \<open>x\<close>, \<open>y\<close> of the C structs carry a prefix, since a record field is a
  constant of the theory: \<open>p_x\<close> is \<open>Projectile.x\<close>, \<open>s_x\<close> is \<open>Ship.x\<close>, and
  \<open>gmap\<close> is \<open>GameState.map\<close>.\<close>

record Projectile =
  p_x :: int
  p_y :: int
  p_dx :: int
  p_dy :: int
  p_active :: bool

record Ship =
  s_x :: int
  s_y :: int
  hp :: int
  vx :: int
  vy :: int
  projectiles :: "Projectile list"

record Player =
  name :: string
  ship :: Ship

record GameState =
  players :: "Player list"
  gameOver :: bool
  gmap :: "char list list"

text \<open>What raylib reports in one frame: \<open>IsKeyDown\<close> for the eight movement keys and
  \<open>IsKeyPressed\<close> for the two fire keys.\<close>

record Keys =
  down_W :: bool
  down_S :: bool
  down_A :: bool
  down_D :: bool
  pressed_LEFT_SHIFT :: bool
  down_UP :: bool
  down_DOWN :: bool
  down_LEFT :: bool
  down_RIGHT :: bool
  pressed_RIGHT_SHIFT :: bool

subsection \<open>Access paths\<close>

text \<open>\<open>the_ship g i\<close> is \<open>game->players[i].ship\<close>, \<open>the_proj g i j\<close> is
  \<open>game->players[i].ship.projectiles[j]\<close>; \<open>upd_ship\<close> and \<open>upd_proj\<close> are the
  assignments through these paths.\<close>

definition the_ship :: "GameState \<Rightarrow> nat \<Rightarrow> Ship" where
  "the_ship g i = ship (players g ! i)"

definition the_proj :: "GameState \<Rightarrow> nat \<Rightarrow> nat \<Rightarrow> Projectile" where
  "the_proj g i j = projectiles (the_ship g i) ! j"

definition upd_ship :: "nat \<Rightarrow> (Ship \<Rightarrow> Ship) \<Rightarrow> GameState \<Rightarrow> GameState" where
  "upd_ship i f g =
     g\<lparr>players := (players g)[i := (players g ! i)\<lparr>ship := f (ship (players g ! i))\<rparr>]\<rparr>"

definition upd_proj :: "nat \<Rightarrow> nat \<Rightarrow> (Projectile \<Rightarrow> Projectile) \<Rightarrow> GameState \<Rightarrow> GameState" where
  "upd_proj i j f g =
     upd_ship i (\<lambda>s. s\<lparr>projectiles := (projectiles s)[j := f (projectiles s ! j)]\<rparr>) g"

definition set_cell :: "nat \<Rightarrow> nat \<Rightarrow> char \<Rightarrow> GameState \<Rightarrow> GameState" where
  "set_cell r c ch g = g\<lparr>gmap := (gmap g)[r := (gmap g ! r)[c := ch]]\<rparr>"

text \<open>Well-formed states: the array lengths of the C declarations.\<close>

definition wf_game :: "GameState \<Rightarrow> bool" where
  "wf_game g \<longleftrightarrow>
     length (players g) = MAX_PLAYERS \<and>
     list_all (\<lambda>pl. length (projectiles (ship pl)) = MAX_PROJECTILES) (players g) \<and>
     length (gmap g) = nat MAP_HEIGHT \<and>
     list_all (\<lambda>row. length row = nat MAP_WIDTH) (gmap g)"

subsection \<open>Initialisation\<close>

definition InitProjectile :: "Projectile \<Rightarrow> Projectile" where
  "InitProjectile p = p\<lparr>p_x := -1, p_y := -1, p_dx := 0, p_dy := 0, p_active := False\<rparr>"

definition InitShip :: "int \<Rightarrow> int \<Rightarrow> Ship \<Rightarrow> Ship" where
  "InitShip startX startY s =
     foldl (\<lambda>s i. s\<lparr>projectiles := (projectiles s)[i := InitProjectile (projectiles s ! i)]\<rparr>)
       (s\<lparr>s_x := startX, s_y := startY, hp := 3, vx := 0, vy := 0\<rparr>)
       [0..<MAX_PROJECTILES]"

definition InitMap :: "GameState \<Rightarrow> GameState" where
  "InitMap g =
     (let g1 = foldl (\<lambda>g r. foldl (\<lambda>g c.
                  if r = 0 \<or> int r = MAP_HEIGHT - 1 \<or> c = 0 \<or> int c = MAP_WIDTH - 1
                  then set_cell r c (CHR ''#'') g
                  else set_cell r c (CHR ''.'') g) g [0..<nat MAP_WIDTH]) g [0..<nat MAP_HEIGHT];
          g2 = set_cell 3 5 (CHR ''X'') g1;
          g3 = set_cell 5 8 (CHR ''X'') g2
      in set_cell 6 10 (CHR ''X'') g3)"

text \<open>The state after \<open>memset(game, 0, sizeof(GameState))\<close>: every integer 0, every flag
  false, every name the empty C string, every map cell the NUL character.\<close>

definition zero_GameState :: GameState where
  "zero_GameState =
     \<lparr>players = replicate MAX_PLAYERS
        \<lparr>name = [],
         ship = \<lparr>s_x = 0, s_y = 0, hp = 0, vx = 0, vy = 0,
                 projectiles = replicate MAX_PROJECTILES
                   \<lparr>p_x = 0, p_y = 0, p_dx = 0, p_dy = 0, p_active = False\<rparr>\<rparr>\<rparr>,
      gameOver = False,
      gmap = replicate (nat MAP_HEIGHT) (replicate (nat MAP_WIDTH) (CHR 0x00))\<rparr>"

definition set_name :: "nat \<Rightarrow> string \<Rightarrow> GameState \<Rightarrow> GameState" where
  "set_name i n g = g\<lparr>players := (players g)[i := (players g ! i)\<lparr>name := n\<rparr>]\<rparr>"

definition InitGame :: "GameState \<Rightarrow> GameState" where
  "InitGame g =
     (let g0 = zero_GameState;
          g1 = InitMap g0;
          g2 = set_name 0 ''Player1'' g1;
          g3 = set_name 1 ''Player2'' g2;
          g4 = upd_ship 0 (InitShip 2 2) g3;
          g5 = upd_ship 1 (InitShip (MAP_WIDTH - 2) (MAP_HEIGHT - 2)) g4
      in g5\<lparr>gameOver := False\<rparr>)"

subsection \<open>HandleInput\<close>

text \<open>The firing loop of \<open>HandleInput\<close>, which the source writes out once for each player
  (lines 358-375 for player 0, 391-408 for player 1): \<open>pl\<close> is the player's index and
  \<open>i\<close> the loop counter. The first inactive slot is filled and the loop is left.\<close>

function FireLoop :: "nat \<Rightarrow> nat \<Rightarrow> GameState \<Rightarrow> GameState" where
  "FireLoop pl i g =
     (if i < MAX_PROJECTILES then
        (if \<not> p_active (the_proj g pl i) then
           (let dx = vx (the_ship g pl);
                dy = vy (the_ship g pl);
                dy = (if dx = 0 \<and> dy = 0 then -1 else dy)
            in upd_proj pl i (\<lambda>p. p\<lparr>p_x := s_x (the_ship g pl), p_y := s_y (the_ship g pl),
                                     p_dx := dx, p_dy := dy, p_active := True\<rparr>) g)
         else FireLoop pl (i + 1) g)
      else g)"
  by pat_completeness auto
termination
  by (relation "measure (\<lambda>(pl, i, g). MAX_PROJECTILES - i)") auto

text \<open>\<open>run_if c f\<close> is the C statement \<open>if (c) f;\<close> without an \<open>else\<close>.\<close>

definition run_if :: "bool \<Rightarrow> (GameState \<Rightarrow> GameState) \<Rightarrow> GameState \<Rightarrow> GameState" where
  "run_if c f g = (if c then f g else g)"

definition HandleInput :: "Keys \<Rightarrow> GameState \<Rightarrow> GameState" where
  "HandleInput k g =
     (let g = upd_ship 0 (\<lambda>s. s\<lparr>vx := 0\<rparr>) g;
          g = upd_ship 0 (\<lambda>s. s\<lparr>vy := 0\<rparr>) g;
          g = upd_ship 1 (\<lambda>s. s\<lparr>vx := 0\<rparr>) g;
          g = upd_ship 1 (\<lambda>s. s\<lparr>vy := 0\<rparr>) g;
          g = run_if (down_W k) (upd_ship 0 (\<lambda>s. s\<lparr>vy := - MAX_SPEED\<rparr>)) g;
          g = run_if (down_S k) (upd_ship 0 (\<lambda>s. s\<lparr>vy := MAX_SPEED\<rparr>)) g;
          g = run_if (down_A k) (upd_ship 0 (\<lambda>s. s\<lparr>vx := - MAX_SPEED\<rparr>)) g;
          g = run_if (down_D k) (upd_ship 0 (\<lambda>s. s\<lparr>vx := MAX_SPEED\<rparr>)) g;
          g = run_if (pressed_LEFT_SHIFT k) (FireLoop 0 0) g;
          g = run_if (down_UP k) (upd_ship 1 (\<lambda>s. s\<lparr>vy := - MAX_SPEED\<rparr>)) g;
          g = run_if (down_DOWN k) (upd_ship 1 (\<lambda>s. s\<lparr>vy := MAX_SPEED\<rparr>)) g;
          g = run_if (down_LEFT k) (upd_ship 1 (\<lambda>s. s\<lparr>vx := - MAX_SPEED\<rparr>)) g;
          g = run_if (down_RIGHT k) (upd_ship 1 (\<lambda>s. s\<lparr>vx := MAX_SPEED\<rparr>)) g
      in run_if (pressed_RIGHT_SHIFT k) (FireLoop 1 0) g)"

subsection \<open>UpdateShips and UpdateProjectiles\<close>

text \<open>The collision test that both functions write out (lines 426-429 and 459-462). The
  disjunction is evaluated left to right as C's \<open>||\<close>: the map is read only when the
  four range tests have failed, so the indices are inside the array.\<close>

definition blocked :: "char list list \<Rightarrow> int \<Rightarrow> int \<Rightarrow> bool" where
  "blocked m nx ny \<longleftrightarrow>
     nx < 0 \<or> nx \<ge> MAP_WIDTH \<or> ny < 0 \<or> ny \<ge> MAP_HEIGHT \<or>
     m ! nat ny ! nat nx = CHR ''#'' \<or> m ! nat ny ! nat nx = CHR ''X''"

text \<open>The body of the loop of \<open>UpdateShips\<close> for player \<open>i\<close>.\<close>

definition UpdateShip :: "nat \<Rightarrow> GameState \<Rightarrow> GameState" where
  "UpdateShip i g =
     (let nx = s_x (the_ship g i) + vx (the_ship g i);
          ny = s_y (the_ship g i) + vy (the_ship g i)
      in if blocked (gmap g) nx ny then
           (let g = upd_ship i (\<lambda>s. s\<lparr>hp := hp s - 1\<rparr>) g
            in if hp (the_ship g i) \<le> 0 then g\<lparr>gameOver := True\<rparr> else g)
         else upd_ship i (\<lambda>s. s\<lparr>s_x := nx, s_y := ny\<rparr>) g)"

definition UpdateShips :: "GameState \<Rightarrow> GameState" where
  "UpdateShips g = foldl (\<lambda>g i. UpdateShip i g) g [0..<MAX_PLAYERS]"

text \<open>The body of the inner loop of \<open>UpdateProjectiles\<close>, as a function of the slot
  \<open>*p\<close> and the map.\<close>

definition UpdateProjectile :: "char list list \<Rightarrow> Projectile \<Rightarrow> Projectile" where
  "UpdateProjectile m p =
     (if p_active p then
        (let nx = p_x p + p_dx p; ny = p_y p + p_dy p
         in if blocked m nx ny then p\<lparr>p_active := False\<rparr>
            else p\<lparr>p_x := nx, p_y := ny\<rparr>)
      else p)"

definition UpdateProjectiles :: "GameState \<Rightarrow> GameState" where
  "UpdateProjectiles g =
     foldl (\<lambda>g i. foldl (\<lambda>g j. upd_proj i j (UpdateProjectile (gmap g)) g) g
              [0..<MAX_PROJECTILES]) g [0..<MAX_PLAYERS]"

subsection \<open>CheckHits\<close>

text \<open>The two loops of \<open>CheckHits\<close> (lines 494-507 and 510-523) are the same code with
  the two ships exchanged: \<open>att\<close> is the index of the ship whose projectiles are tested
  and \<open>dfn\<close> the index of the ship they may hit. The result is tagged: \<open>Inl\<close> when the
  loop left the function through \<open>return\<close>, \<open>Inr\<close> when it ran to its end.\<close>

function HitLoop :: "nat \<Rightarrow> nat \<Rightarrow> nat \<Rightarrow> GameState \<Rightarrow> GameState + GameState" where
  "HitLoop att dfn i g =
     (if i < MAX_PROJECTILES then
        (if p_active (the_proj g att i) \<and> p_x (the_proj g att i) = s_x (the_ship g dfn)
              \<and> p_y (the_proj g att i) = s_y (the_ship g dfn) then
           (let g = upd_ship dfn (\<lambda>s. s\<lparr>hp := hp s - 1\<rparr>) g;
                g = upd_proj att i (\<lambda>p. p\<lparr>p_active := False\<rparr>) g
            in if hp (the_ship g dfn) \<le> 0 then Inl (g\<lparr>gameOver := True\<rparr>)
               else HitLoop att dfn (i + 1) g)
         else HitLoop att dfn (i + 1) g)
      else Inr g)"
  by pat_completeness auto
termination
  by (relation "measure (\<lambda>(att, dfn, i, g). MAX_PROJECTILES - i)") auto

definition CheckHits :: "GameState \<Rightarrow> GameState" where
  "CheckHits g =
     (if hp (the_ship g 0) \<le> 0 \<and> hp (the_ship g 1) \<le> 0 then g\<lparr>gameOver := True\<rparr>
      else case HitLoop 0 1 0 g of
             Inl g \<Rightarrow> g
           | Inr g \<Rightarrow> (case HitLoop 1 0 0 g of Inl g \<Rightarrow> g | Inr g \<Rightarrow> g))"

subsection \<open>The frame loop of \<open>main\<close>\<close>

text \<open>\<open>Step\<close> is the simulation part of one iteration of the loop of \<open>main\<close>
  (lines 112-125); a run of the game is \<open>run\<close> over the key states of its frames.\<close>

definition Step :: "Keys \<Rightarrow> GameState \<Rightarrow> GameState" where
  "Step k g =
     (if \<not> gameOver g then CheckHits (UpdateProjectiles (UpdateShips (HandleInput k g)))
      else g)"

definition run :: "Keys list \<Rightarrow> GameState" where
  "run ks = foldl (\<lambda>g k. Step k g) (InitGame zero_GameState) ks"

text \<open>The message of lines 138-151: a tie when both healths are at most 0, otherwise
  the index of the winner.\<close>

datatype outcome = Tie | Winner nat

definition result :: "GameState \<Rightarrow> outcome" where
  "result g =
     (let hpA = hp (the_ship g 0); hpB = hp (the_ship g 1)
      in if hpA \<le> 0 \<and> hpB \<le> 0 then Tie
         else Winner (if hpB > hpA then 1 else 0))"

subsection \<open>Vocabulary of the properties\<close>

text \<open>The map that \<open>InitMap\<close> builds, row by row (\<open>bay_map ! y ! x\<close> is
  \<open>map[y][x]\<close>): \<open>#\<close> is the boundary wall, \<open>X\<close> an obstacle, \<open>.\<close> open water.\<close>

definition bay_map :: "char list list" where
  "bay_map =
    [''####################'',
     ''#..................#'',
     ''#..................#'',
     ''#....X.............#'',
     ''#..................#'',
     ''#.......X..........#'',
     ''#.........X........#'',
     ''#..................#'',
     ''#..................#'',
     ''####################'']"

text \<open>A position is on an open cell of map \<open>m\<close>: inside the map, and the cell is
  \<open>.\<close>.\<close>

definition on_open :: "char list list \<Rightarrow> int \<Rightarrow> int \<Rightarrow> bool" where
  "on_open m x y \<longleftrightarrow>
     0 \<le> x \<and> x < MAP_WIDTH \<and> 0 \<le> y \<and> y < MAP_HEIGHT \<and> m ! nat y ! nat x = CHR ''.''"

text \<open>The keys of one frame as the intent of player \<open>pl\<close>: the velocity that
  \<open>HandleInput\<close> derives (the later assignment wins when opposite keys are held) and
  the fire trigger.\<close>

definition key_vx :: "nat \<Rightarrow> Keys \<Rightarrow> int" where
  "key_vx pl k =
     (if pl = 0 then (if down_D k then MAX_SPEED else if down_A k then - MAX_SPEED else 0)
      else (if down_RIGHT k then MAX_SPEED else if down_LEFT k then - MAX_SPEED else 0))"

definition key_vy :: "nat \<Rightarrow> Keys \<Rightarrow> int" where
  "key_vy pl k =
     (if pl = 0 then (if down_S k then MAX_SPEED else if down_W k then - MAX_SPEED else 0)
      else (if down_DOWN k then MAX_SPEED else if down_UP k then - MAX_SPEED else 0))"

definition fire_key :: "nat \<Rightarrow> Keys \<Rightarrow> bool" where
  "fire_key pl k = (if pl = 0 then pressed_LEFT_SHIFT k else pressed_RIGHT_SHIFT k)"

text \<open>What the three phases before hit resolution do to one ship, as functions of the
  ship alone. They are derived from the loops above (lemmas \<open>the_ship_HandleInput\<close>,
  \<open>the_ship_UpdateShips\<close> and \<open>the_ship_UpdateProjectiles\<close>), not assumed:
  \<open>fire_slots\<close> fills the first inactive slot of a pool with a new shot and leaves a full
  pool as it is; \<open>new_shot\<close> is the shot that the firing loop writes, at the ship's
  position, along its velocity, upwards when the ship stands still.\<close>

definition new_shot :: "Ship \<Rightarrow> Projectile" where
  "new_shot s =
     \<lparr>p_x = s_x s, p_y = s_y s, p_dx = vx s,
      p_dy = (if vx s = 0 \<and> vy s = 0 then -1 else vy s), p_active = True\<rparr>"

fun fire_slots :: "Projectile \<Rightarrow> Projectile list \<Rightarrow> Projectile list" where
  "fire_slots n [] = []"
| "fire_slots n (p # ps) = (if \<not> p_active p then n # ps else p # fire_slots n ps)"

definition fire :: "Ship \<Rightarrow> Ship" where
  "fire s = s\<lparr>projectiles := fire_slots (new_shot s) (projectiles s)\<rparr>"

definition ship_input :: "int \<Rightarrow> int \<Rightarrow> bool \<Rightarrow> Ship \<Rightarrow> Ship" where
  "ship_input kx ky f s =
     (if f then fire (s\<lparr>vx := kx, vy := ky\<rparr>) else s\<lparr>vx := kx, vy := ky\<rparr>)"

definition ship_after_move :: "char list list \<Rightarrow> Ship \<Rightarrow> Ship" where
  "ship_after_move m s =
     (if blocked m (s_x s + vx s) (s_y s + vy s) then s\<lparr>hp := hp s - 1\<rparr>
      else s\<lparr>s_x := s_x s + vx s, s_y := s_y s + vy s\<rparr>)"

definition advance_all :: "char list list \<Rightarrow> Ship \<Rightarrow> Ship" where
  "advance_all m s = s\<lparr>projectiles := map (UpdateProjectile m) (projectiles s)\<rparr>"

text \<open>The invariant of the reachable states: the arrays have their lengths, the map is the
  one built at start, every ship and every active projectile is on an open cell.\<close>

definition ship_ok :: "char list list \<Rightarrow> Ship \<Rightarrow> bool" where
  "ship_ok m s \<longleftrightarrow>
     on_open m (s_x s) (s_y s) \<and>
     list_all (\<lambda>p. \<not> p_active p \<or> on_open m (p_x p) (p_y p)) (projectiles s)"

definition game_inv :: "GameState \<Rightarrow> bool" where
  "game_inv g \<longleftrightarrow>
     wf_game g \<and> gmap g = bay_map \<and> list_all (\<lambda>pl. ship_ok bay_map (ship pl)) (players g)"

text \<open>\<open>after r\<close> is the state with which a loop of \<open>CheckHits\<close> ends, whichever way
  it is left. \<open>hit_step g g'\<close> says that \<open>g'\<close> differs from \<open>g\<close> at most as hit
  resolution may change a state: health may drop, projectiles may be deactivated, the
  game may become over; nothing moves.\<close>

definition after :: "GameState + GameState \<Rightarrow> GameState" where
  "after r = (case r of Inl g \<Rightarrow> g | Inr g \<Rightarrow> g)"

definition hit_step :: "GameState \<Rightarrow> GameState \<Rightarrow> bool" where
  "hit_step g g' \<longleftrightarrow>
     wf_game g' \<and> gmap g' = gmap g \<and> (gameOver g \<longrightarrow> gameOver g') \<and>
     (\<forall>i<2. s_x (the_ship g' i) = s_x (the_ship g i) \<and> s_y (the_ship g' i) = s_y (the_ship g i)
        \<and> vx (the_ship g' i) = vx (the_ship g i) \<and> vy (the_ship g' i) = vy (the_ship g i)
        \<and> hp (the_ship g' i) \<le> hp (the_ship g i)) \<and>
     (\<forall>i<2. \<forall>j<5. the_proj g' i j = the_proj g i j
        \<or> the_proj g' i j = (the_proj g i j)\<lparr>p_active := False\<rparr>)"

text \<open>The test of \<open>CheckHits\<close> (lines 497 and 513): projectile \<open>p\<close> is active and on the
  cell of ship \<open>s\<close>. \<open>hits_from i g att dfn\<close> counts the slots from \<open>i\<close> on of ship
  \<open>att\<close> that pass the test against ship \<open>dfn\<close> in state \<open>g\<close>, and \<open>hits\<close> counts
  all slots.\<close>

definition on_cell :: "Ship \<Rightarrow> Projectile \<Rightarrow> bool" where
  "on_cell s p \<longleftrightarrow> p_active p \<and> p_x p = s_x s \<and> p_y p = s_y s"

definition hits_from :: "nat \<Rightarrow> GameState \<Rightarrow> nat \<Rightarrow> nat \<Rightarrow> nat" where
  "hits_from i g att dfn =
     length (filter (on_cell (the_ship g dfn)) (drop i (projectiles (the_ship g att))))"

definition hits :: "GameState \<Rightarrow> nat \<Rightarrow> nat \<Rightarrow> nat" where
  "hits g att dfn = hits_from 0 g att dfn"

subsection \<open>Concrete states and key presses\<close>

definition idle :: Projectile where
  "idle = \<lparr>p_x = -1, p_y = -1, p_dx = 0, p_dy = 0, p_active = False\<rparr>"

definition shot :: "int \<Rightarrow> int \<Rightarrow> int \<Rightarrow> int \<Rightarrow> bool \<Rightarrow> Projectile" where
  "shot x y dx dy a = \<lparr>p_x = x, p_y = y, p_dx = dx, p_dy = dy, p_active = a\<rparr>"

definition mk_ship :: "int \<Rightarrow> int \<Rightarrow> int \<Rightarrow> int \<Rightarrow> int \<Rightarrow> Projectile \<Rightarrow> Ship" where
  "mk_ship x y h v w p =
     \<lparr>s_x = x, s_y = y, hp = h, vx = v, vy = w, projectiles = [p, idle, idle, idle, idle]\<rparr>"

definition mk_game :: "Ship \<Rightarrow> Ship \<Rightarrow> bool \<Rightarrow> GameState" where
  "mk_game a b ov =
     \<lparr>players = [\<lparr>name = ''Player1'', ship = a\<rparr>, \<lparr>name = ''Player2'', ship = b\<rparr>],
      gameOver = ov, gmap = bay_map\<rparr>"

definition no_keys :: Keys where
  "no_keys =
     \<lparr>down_W = False, down_S = False, down_A = False, down_D = False,
      pressed_LEFT_SHIFT = False,
      down_UP = False, down_DOWN = False, down_LEFT = False, down_RIGHT = False,
      pressed_RIGHT_SHIFT = False\<rparr>"

text \<open>Key presses of single frames. Player 0 steers with W, A, S, D and player 1 with
  the arrow keys; W and UP decrease \<open>y\<close>.\<close>

definition kA_up_B_down :: Keys where
  "kA_up_B_down = no_keys\<lparr>down_W := True, down_DOWN := True\<rparr>"

definition kA_up_B_upleft :: Keys where
  "kA_up_B_upleft = no_keys\<lparr>down_W := True, down_UP := True, down_LEFT := True\<rparr>"

definition kA_right_B_upleft :: Keys where
  "kA_right_B_upleft = no_keys\<lparr>down_D := True, down_UP := True, down_LEFT := True\<rparr>"

definition k_fire_both :: Keys where
  "k_fire_both = no_keys\<lparr>down_D := True, pressed_LEFT_SHIFT := True,
                           down_LEFT := True, pressed_RIGHT_SHIFT := True\<rparr>"

definition k_fire_right :: Keys where
  "k_fire_right = no_keys\<lparr>down_D := True, pressed_LEFT_SHIFT := True\<rparr>"

definition kA_ram :: Keys where
  "kA_ram = no_keys\<lparr>down_W := True\<rparr>"

definition kB_ram :: Keys where
  "kB_ram = no_keys\<lparr>down_UP := True\<rparr>"

definition k_fire_B :: Keys where
  "k_fire_B = no_keys\<lparr>down_LEFT := True, pressed_RIGHT_SHIFT := True\<rparr>"

definition k_both_ram :: Keys where
  "k_both_ram = no_keys\<lparr>down_W := True, down_UP := True\<rparr>"

text \<open>A game of ten frames from the start. Ship A goes up to row 1 and rams the top wall
  twice; ship B rams the bottom wall twice and goes diagonally up to row 1; both have
  health 1 then. In frame ten they fire at each other along row 1, three cells apart, so
  that both shots arrive in frame eleven.\<close>

definition duel_keys :: "Keys list" where
  "duel_keys =
     [kA_up_B_down, kA_up_B_down, kA_up_B_upleft,
      kA_right_B_upleft, kA_right_B_upleft, kA_right_B_upleft,
      kA_right_B_upleft, kA_right_B_upleft, kA_right_B_upleft,
      k_fire_both]"

definition duel_state :: GameState where
  "duel_state =
     mk_game (mk_ship 9 1 1 1 0 (shot 9 1 1 0 True))
       (mk_ship 10 1 1 (-1) 0 (shot 10 1 (-1) 0 True)) False"

text \<open>The first nine frames of \<open>duel_keys\<close>, and the state they lead to: both ships in row
  1 with health 1, three cells apart, no shot in flight.\<close>

definition approach_keys :: "Keys list" where
  "approach_keys =
     [kA_up_B_down, kA_up_B_down, kA_up_B_upleft,
      kA_right_B_upleft, kA_right_B_upleft, kA_right_B_upleft,
      kA_right_B_upleft, kA_right_B_upleft, kA_right_B_upleft]"

definition approach_state :: GameState where
  "approach_state = mk_game (mk_ship 8 1 1 1 0 idle) (mk_ship 11 1 1 (-1) (-1) idle) False"

text \<open>After the approach only ship B fires, moving one cell towards ship A, and both ships
  rest for one frame: the shot of ship B is then one cell away from ship A.\<close>

definition volley_keys :: "Keys list" where
  "volley_keys = approach_keys @ [k_fire_B, no_keys]"

definition volley_state :: GameState where
  "volley_state =
     mk_game (mk_ship 8 1 1 0 0 idle) (mk_ship 10 1 1 0 0 (shot 9 1 (-1) 0 True)) False"

text \<open>Ship A one cell below the top wall, steering into it.\<close>

definition wall_state :: GameState where
  "wall_state = mk_game (mk_ship 2 1 3 0 (-1) idle) (mk_ship 18 8 3 0 0 idle) False"

text \<open>A projectile of ship A one cell left of the obstacle at (5, 3), flying right.\<close>

definition obstacle_state :: GameState where
  "obstacle_state =
     mk_game (mk_ship 3 3 3 0 0 (shot 4 3 1 0 True)) (mk_ship 18 8 3 0 0 idle) False"

text \<open>Ship A with all five slots in flight.\<close>

definition full_state :: GameState where
  "full_state =
     mk_game \<lparr>s_x = 2, s_y = 2, hp = 3, vx = 1, vy = 0,
               projectiles = [shot 3 2 1 0 True, shot 4 2 1 0 True, shot 5 2 1 0 True,
                              shot 6 2 1 0 True, shot 7 2 1 0 True]\<rparr>
       (mk_ship 18 8 3 0 0 idle) False"

text \<open>The state in which \<open>CheckHits\<close> runs during a step.\<close>

definition before_hits :: "Keys \<Rightarrow> GameState \<Rightarrow> GameState" where
  "before_hits k g = UpdateProjectiles (UpdateShips (HandleInput k g))"

section \<open>Basic facts\<close>

declare FireLoop.simps [simp del] HitLoop.simps [simp del]

lemma upt_players: "[0..<MAX_PLAYERS] = [0, 1]"
  by (simp add: MAX_PLAYERS_def upt_rec)

lemma upt_projectiles: "[0..<MAX_PROJECTILES] = [0, 1, 2, 3, 4]"
  by (simp add: MAX_PROJECTILES_def upt_rec)

subsection \<open>The initial state\<close>

lemma if_set_cell:
  "(if b then set_cell r c x g else set_cell r c y g) = set_cell r c (if b then x else y) g"
  by simp

lemma foldl_set_cell_row:
  "r < length (gmap g) \<Longrightarrow> n \<le> length (gmap g ! r) \<Longrightarrow>
   foldl (\<lambda>g c. set_cell r c (h c) g) g [0..<n] =
     g\<lparr>gmap := (gmap g)[r := map h [0..<n] @ drop n (gmap g ! r)]\<rparr>"
proof (induction n)
  case 0
  then show ?case by simp
next
  case (Suc n)
  then show ?case
    apply (simp add: set_cell_def)
    apply (simp add: list_update_append upd_conv_take_nth_drop)
    done
qed

lemma foldl_set_cell_rows:
  "n \<le> length (gmap g) \<Longrightarrow> \<forall>r<n. length (gmap g ! r) = w \<Longrightarrow>
   foldl (\<lambda>g r. foldl (\<lambda>g c. set_cell r c (h r c) g) g [0..<w]) g [0..<n] =
     g\<lparr>gmap := map (\<lambda>r. map (h r) [0..<w]) [0..<n] @ drop n (gmap g)\<rparr>"
proof (induction n)
  case 0
  then show ?case by simp
next
  case (Suc n)
  then show ?case
    apply (simp add: foldl_set_cell_row nth_append)
    apply (simp add: list_update_append upd_conv_take_nth_drop)
    done
qed

lemma InitMap_zero: "InitMap zero_GameState = zero_GameState\<lparr>gmap := bay_map\<rparr>"
proof -
  have rows: "\<forall>r<nat MAP_HEIGHT. length (gmap zero_GameState ! r) = nat MAP_WIDTH"
    by (simp add: zero_GameState_def)
  have len: "nat MAP_HEIGHT \<le> length (gmap zero_GameState)"
    by (simp add: zero_GameState_def)
  show ?thesis
    unfolding InitMap_def if_set_cell foldl_set_cell_rows [OF len rows]
    by (simp add: set_cell_def Let_def zero_GameState_def MAP_WIDTH_def MAP_HEIGHT_def
        bay_map_def upt_rec)
qed

lemma InitShip_zero:
  "InitShip x y \<lparr>s_x = 0, s_y = 0, hp = 0, vx = 0, vy = 0,
      projectiles = replicate MAX_PROJECTILES
        \<lparr>p_x = 0, p_y = 0, p_dx = 0, p_dy = 0, p_active = False\<rparr>\<rparr> = mk_ship x y 3 0 0 idle"
  by (simp add: InitShip_def upt_projectiles InitProjectile_def mk_ship_def idle_def
      MAX_PROJECTILES_def numeral_eq_Suc)

lemma InitGame_eq:
  "InitGame g = mk_game (mk_ship 2 2 3 0 0 idle) (mk_ship 18 8 3 0 0 idle) False"
  unfolding InitGame_def InitMap_zero Let_def
  by (simp add: zero_GameState_def set_name_def upd_ship_def InitShip_zero mk_game_def
      MAX_PLAYERS_def numeral_eq_Suc MAP_WIDTH_def MAP_HEIGHT_def)

subsection \<open>Well-formed states and the access paths\<close>

lemma wf_players: "wf_game g \<Longrightarrow> length (players g) = 2"
  by (simp add: wf_game_def MAX_PLAYERS_def)

lemma wf_projectiles: "wf_game g \<Longrightarrow> i < 2 \<Longrightarrow> length (projectiles (the_ship g i)) = 5"
  by (simp add: wf_game_def MAX_PLAYERS_def MAX_PROJECTILES_def list_all_length the_ship_def)

lemma wf_mk_game:
  "length (projectiles a) = 5 \<Longrightarrow> length (projectiles b) = 5 \<Longrightarrow> wf_game (mk_game a b ov)"
  by (simp add: wf_game_def mk_game_def MAX_PLAYERS_def MAX_PROJECTILES_def MAP_HEIGHT_def
      MAP_WIDTH_def bay_map_def)

lemma length_mk_ship [simp]: "length (projectiles (mk_ship x y h v w p)) = 5"
  by (simp add: mk_ship_def)

lemma length_players_upd_ship [simp]: "length (players (upd_ship i f g)) = length (players g)"
  by (simp add: upd_ship_def)

lemma gmap_upd_ship [simp]: "gmap (upd_ship i f g) = gmap g"
  by (simp add: upd_ship_def)

lemma gameOver_upd_ship [simp]: "gameOver (upd_ship i f g) = gameOver g"
  by (simp add: upd_ship_def)

lemma the_ship_upd_ship:
  "i < length (players g) \<Longrightarrow>
   the_ship (upd_ship i f g) j = (if j = i then f (the_ship g i) else the_ship g j)"
  by (simp add: upd_ship_def the_ship_def)

lemma the_ship_upd_ship_other: "j \<noteq> i \<Longrightarrow> the_ship (upd_ship i f g) j = the_ship g j"
  by (simp add: upd_ship_def the_ship_def)

lemma the_ship_gameOver_update [simp]: "the_ship (g\<lparr>gameOver := b\<rparr>) i = the_ship g i"
  by (simp add: the_ship_def)

lemma the_proj_gameOver_update [simp]: "the_proj (g\<lparr>gameOver := b\<rparr>) i j = the_proj g i j"
  by (simp add: the_proj_def)

lemma wf_gameOver_update [simp]: "wf_game (g\<lparr>gameOver := b\<rparr>) = wf_game g"
  by (simp add: wf_game_def)

lemma wf_upd_ship:
  "wf_game g \<Longrightarrow> length (projectiles (f (the_ship g i))) = length (projectiles (the_ship g i)) \<Longrightarrow>
   wf_game (upd_ship i f g)"
proof (cases "i < length (players g)")
  case True
  assume "wf_game g"
    and "length (projectiles (f (the_ship g i))) = length (projectiles (the_ship g i))"
  with True show ?thesis
    by (auto simp: wf_game_def upd_ship_def the_ship_def list_all_length nth_list_update)
next
  case False
  assume "wf_game g"
  with False show ?thesis
    by (simp add: upd_ship_def list_update_beyond)
qed

lemma wf_upd_proj: "wf_game g \<Longrightarrow> wf_game (upd_proj i j f g)"
  by (simp add: upd_proj_def wf_upd_ship)

lemma length_players_upd_proj [simp]: "length (players (upd_proj i j f g)) = length (players g)"
  by (simp add: upd_proj_def)

lemma gmap_upd_proj [simp]: "gmap (upd_proj i j f g) = gmap g"
  by (simp add: upd_proj_def)

lemma gameOver_upd_proj [simp]: "gameOver (upd_proj i j f g) = gameOver g"
  by (simp add: upd_proj_def)

lemma the_ship_upd_proj:
  "i < length (players g) \<Longrightarrow>
   the_ship (upd_proj i j f g) i' =
     (if i' = i then (the_ship g i)\<lparr>projectiles :=
                        (projectiles (the_ship g i))[j := f (the_proj g i j)]\<rparr>
      else the_ship g i')"
  by (simp add: upd_proj_def the_ship_upd_ship the_proj_def)

lemma the_proj_upd_ship_other: "i' \<noteq> i \<Longrightarrow> the_proj (upd_ship i f g) i' j = the_proj g i' j"
  by (simp add: the_proj_def the_ship_upd_ship_other)

lemma the_proj_upd_ship_same:
  "i < length (players g) \<Longrightarrow> projectiles (f (the_ship g i)) = projectiles (the_ship g i) \<Longrightarrow>
   the_proj (upd_ship i f g) i' j = the_proj g i' j"
  by (simp add: the_proj_def the_ship_upd_ship)

lemma the_proj_upd_proj:
  "wf_game g \<Longrightarrow> i < 2 \<Longrightarrow> j < 5 \<Longrightarrow>
   the_proj (upd_proj i j f g) i' j' =
     (if i' = i \<and> j' = j then f (the_proj g i j) else the_proj g i' j')"
  by (simp add: the_proj_def the_ship_upd_proj wf_players wf_projectiles nth_list_update)

lemma upd_ship_upd_ship:
  "i < length (players g) \<Longrightarrow> upd_ship i f (upd_ship i f' g) = upd_ship i (\<lambda>s. f (f' s)) g"
  by (simp add: upd_ship_def)

lemma upd_ship_id: "i < length (players g) \<Longrightarrow> f (the_ship g i) = the_ship g i \<Longrightarrow> upd_ship i f g = g"
  by (simp add: upd_ship_def the_ship_def)

lemma upd_ship_cong:
  "f (the_ship g i) = f' (the_ship g i) \<Longrightarrow> upd_ship i f g = upd_ship i f' g"
  by (simp add: upd_ship_def the_ship_def)

subsection \<open>UpdateShips\<close>

lemma the_ship_UpdateShip:
  "i < length (players g) \<Longrightarrow>
   the_ship (UpdateShip i g) j =
     (if j = i then ship_after_move (gmap g) (the_ship g i) else the_ship g j)"
  by (simp add: UpdateShip_def Let_def the_ship_upd_ship ship_after_move_def)

lemma gmap_UpdateShip [simp]: "gmap (UpdateShip i g) = gmap g"
  by (simp add: UpdateShip_def Let_def)

lemma length_players_UpdateShip [simp]: "length (players (UpdateShip i g)) = length (players g)"
  by (simp add: UpdateShip_def Let_def)

lemma wf_UpdateShip: "wf_game g \<Longrightarrow> wf_game (UpdateShip i g)"
  by (simp add: UpdateShip_def Let_def wf_upd_ship)

lemma gameOver_UpdateShip:
  "i < length (players g) \<Longrightarrow>
   gameOver (UpdateShip i g) \<longleftrightarrow>
     gameOver g \<or> hp (ship_after_move (gmap g) (the_ship g i)) \<le> 0 \<and>
       blocked (gmap g) (s_x (the_ship g i) + vx (the_ship g i))
         (s_y (the_ship g i) + vy (the_ship g i))"
  by (simp add: UpdateShip_def Let_def the_ship_upd_ship ship_after_move_def)

lemma UpdateShips_eq: "UpdateShips g = UpdateShip 1 (UpdateShip 0 g)"
  by (simp add: UpdateShips_def upt_players)

lemma the_ship_UpdateShips:
  "wf_game g \<Longrightarrow> i < 2 \<Longrightarrow> the_ship (UpdateShips g) i = ship_after_move (gmap g) (the_ship g i)"
  by (auto simp: UpdateShips_eq the_ship_UpdateShip wf_players less_2_cases_iff)

lemma gmap_UpdateShips [simp]: "gmap (UpdateShips g) = gmap g"
  by (simp add: UpdateShips_eq)

lemma wf_UpdateShips: "wf_game g \<Longrightarrow> wf_game (UpdateShips g)"
  by (simp add: UpdateShips_eq wf_UpdateShip)

lemma gameOver_UpdateShips_mono: "gameOver g \<Longrightarrow> gameOver (UpdateShips g)"
  by (simp add: UpdateShips_eq UpdateShip_def Let_def)

subsection \<open>UpdateProjectiles\<close>

lemma foldl_upd_proj:
  "i < length (players g) \<Longrightarrow> n \<le> length (projectiles (the_ship g i)) \<Longrightarrow>
   foldl (\<lambda>g j. upd_proj i j (UpdateProjectile (gmap g)) g) g [0..<n] =
     upd_ship i (\<lambda>s. s\<lparr>projectiles := map (UpdateProjectile (gmap g)) (take n (projectiles s))
                                      @ drop n (projectiles s)\<rparr>) g"
proof (induction n)
  case 0
  then show ?case by (simp add: upd_ship_id)
next
  case (Suc n)
  then show ?case
    apply (simp add: upd_proj_def upd_ship_upd_ship)
    apply (rule upd_ship_cong)
    apply (simp add: nth_append list_update_append take_Suc_conv_app_nth
        upd_conv_take_nth_drop)
    done
qed

lemma UpdateProjectiles_eq:
  "wf_game g \<Longrightarrow>
   UpdateProjectiles g =
     upd_ship 1 (advance_all (gmap g)) (upd_ship 0 (advance_all (gmap g)) g)"
proof -
  assume wf: "wf_game g"
  let ?g0 = "upd_ship 0 (advance_all (gmap g)) g"
  have a: "foldl (\<lambda>g j. upd_proj 0 j (UpdateProjectile (gmap g)) g) g [0..<MAX_PROJECTILES] = ?g0"
    using wf by (subst foldl_upd_proj)
      (auto simp: wf_players wf_projectiles MAX_PROJECTILES_def advance_all_def
        intro!: upd_ship_cong)
  have wf0: "wf_game ?g0"
    using wf by (simp add: wf_upd_ship advance_all_def)
  have b: "foldl (\<lambda>g j. upd_proj 1 j (UpdateProjectile (gmap g)) g) ?g0 [0..<MAX_PROJECTILES] =
      upd_ship 1 (advance_all (gmap g)) ?g0"
    using wf wf0 by (subst foldl_upd_proj)
      (auto simp: wf_players wf_projectiles MAX_PROJECTILES_def advance_all_def
        intro!: upd_ship_cong)
  show ?thesis
    unfolding UpdateProjectiles_def upt_players
    by (simp only: foldl_Cons foldl_Nil a b)
qed

lemma the_ship_UpdateProjectiles:
  "wf_game g \<Longrightarrow> i < 2 \<Longrightarrow>
   the_ship (UpdateProjectiles g) i = advance_all (gmap g) (the_ship g i)"
  by (auto simp: UpdateProjectiles_eq the_ship_upd_ship wf_players less_2_cases_iff)

lemma gmap_UpdateProjectiles: "wf_game g \<Longrightarrow> gmap (UpdateProjectiles g) = gmap g"
  by (simp add: UpdateProjectiles_eq)

lemma gameOver_UpdateProjectiles: "wf_game g \<Longrightarrow> gameOver (UpdateProjectiles g) = gameOver g"
  by (simp add: UpdateProjectiles_eq)

lemma wf_UpdateProjectiles: "wf_game g \<Longrightarrow> wf_game (UpdateProjectiles g)"
  by (simp add: UpdateProjectiles_eq wf_upd_ship advance_all_def)

subsection \<open>The firing loop\<close>

lemma length_fire_slots [simp]: "length (fire_slots n ps) = length ps"
  by (induction ps) auto

lemma fire_slots_full: "\<forall>j<length ps. p_active (ps ! j) \<Longrightarrow> fire_slots n ps = ps"
proof (induction ps)
  case Nil
  then show ?case by simp
next
  case (Cons p ps)
  from Cons.prems have "p_active p" by auto
  moreover from Cons.prems have "\<forall>j<length ps. p_active (ps ! j)" by auto
  ultimately show ?case using Cons.IH by simp
qed

lemma fire_slots_first:
  "j < length ps \<Longrightarrow> \<not> p_active (ps ! j) \<Longrightarrow> \<forall>j'<j. p_active (ps ! j') \<Longrightarrow>
   fire_slots n ps = ps[j := n]"
proof (induction ps arbitrary: j)
  case Nil
  then show ?case by simp
next
  case (Cons p ps)
  show ?case
  proof (cases j)
    case 0
    with Cons.prems show ?thesis by simp
  next
    case (Suc j0)
    with Cons.prems have "p_active p" by auto
    moreover from Suc Cons.prems have "j0 < length ps" "\<not> p_active (ps ! j0)"
      "\<forall>j'<j0. p_active (ps ! j')" by auto
    ultimately show ?thesis using Cons.IH [of j0] Suc by simp
  qed
qed

lemma set_fire_slots: "set (fire_slots n ps) \<subseteq> insert n (set ps)"
  by (induction ps) auto

lemma Projectile_update_all:
  "(p::Projectile)\<lparr>p_x := a, p_y := b, p_dx := c, p_dy := d, p_active := e\<rparr> =
     \<lparr>p_x = a, p_y = b, p_dx = c, p_dy = d, p_active = e\<rparr>"
  by (cases p) simp

lemma FireLoop_take_drop:
  "wf_game g \<Longrightarrow> pl < 2 \<Longrightarrow> i \<le> 5 \<Longrightarrow>
   FireLoop pl i g =
     upd_ship pl (\<lambda>s. s\<lparr>projectiles := take i (projectiles s) @
                          fire_slots (new_shot (the_ship g pl)) (drop i (projectiles s))\<rparr>) g"
proof (induction pl i g rule: FireLoop.induct)
  case (1 pl i g)
  note len = wf_projectiles [OF "1.prems"(1,2)] and pls = wf_players [OF "1.prems"(1)]
  show ?case
  proof (cases "i < MAX_PROJECTILES")
    case False
    with "1.prems" len pls show ?thesis
      by (subst FireLoop.simps) (simp add: MAX_PROJECTILES_def upd_ship_id)
  next
    case True
    then have i: "i < 5" by (simp add: MAX_PROJECTILES_def)
    have dr: "drop i (projectiles (the_ship g pl)) =
        the_proj g pl i # drop (Suc i) (projectiles (the_ship g pl))"
      using i len by (simp add: Cons_nth_drop_Suc the_proj_def)
    show ?thesis
    proof (cases "p_active (the_proj g pl i)")
      case False
      have "FireLoop pl i g = upd_proj pl i (\<lambda>p. new_shot (the_ship g pl)) g"
        using True False
        by (subst FireLoop.simps) (simp add: Let_def new_shot_def upd_proj_def Projectile_update_all)
      also have "\<dots> = upd_ship pl (\<lambda>s. s\<lparr>projectiles := take i (projectiles s) @
          fire_slots (new_shot (the_ship g pl)) (drop i (projectiles s))\<rparr>) g"
        unfolding upd_proj_def
        using False i len by (intro upd_ship_cong) (simp add: dr upd_conv_take_nth_drop)
      finally show ?thesis .
    next
      case act: True
      have "FireLoop pl i g = FireLoop pl (i + 1) g"
        using True act by (subst FireLoop.simps) simp
      also have "\<dots> = upd_ship pl (\<lambda>s. s\<lparr>projectiles := take (i + 1) (projectiles s) @
          fire_slots (new_shot (the_ship g pl)) (drop (i + 1) (projectiles s))\<rparr>) g"
        using "1.IH" [OF True _ "1.prems"(1,2)] act i by simp
      also have "\<dots> = upd_ship pl (\<lambda>s. s\<lparr>projectiles := take i (projectiles s) @
          fire_slots (new_shot (the_ship g pl)) (drop i (projectiles s))\<rparr>) g"
        using act i len
        by (intro upd_ship_cong) (simp add: dr take_Suc_conv_app_nth the_proj_def)
      finally show ?thesis .
    qed
  qed
qed

lemma FireLoop_eq: "wf_game g \<Longrightarrow> pl < 2 \<Longrightarrow> FireLoop pl 0 g = upd_ship pl fire g"
  by (simp add: FireLoop_take_drop fire_def cong: upd_ship_cong)

subsection \<open>HandleInput\<close>

lemma run_if_upd_ship:
  "run_if c (upd_ship i f) g = upd_ship i (\<lambda>s. if c then f s else s) g"
  by (simp add: run_if_def upd_ship_def)

lemma run_if_FireLoop:
  "wf_game g \<Longrightarrow> pl < 2 \<Longrightarrow>
   run_if c (FireLoop pl 0) g = upd_ship pl (\<lambda>s. if c then fire s else s) g"
  by (cases c) (simp_all add: run_if_def FireLoop_eq upd_ship_def)

lemma length_projectiles_fire [simp]: "length (projectiles (fire s)) = length (projectiles s)"
  by (simp add: fire_def)

lemma length_projectiles_ship_input [simp]:
  "length (projectiles (ship_input kx ky f s)) = length (projectiles s)"
  by (simp add: ship_input_def)

lemma vy_vx_swap: "(s::Ship)\<lparr>vy := a, vx := b\<rparr> = s\<lparr>vx := b, vy := a\<rparr>"
  by (cases s) simp

lemmas HandleInput_simps =
  HandleInput_def Let_def run_if_upd_ship run_if_FireLoop wf_upd_ship the_ship_upd_ship
  wf_players vy_vx_swap

lemma wf_HandleInput: "wf_game g \<Longrightarrow> wf_game (HandleInput k g)"
  by (simp add: HandleInput_simps)

lemma gmap_HandleInput: "wf_game g \<Longrightarrow> gmap (HandleInput k g) = gmap g"
  by (simp add: HandleInput_simps)

lemma gameOver_HandleInput: "wf_game g \<Longrightarrow> gameOver (HandleInput k g) = gameOver g"
  by (simp add: HandleInput_simps)

lemma the_ship_HandleInput_0:
  "wf_game g \<Longrightarrow>
   the_ship (HandleInput k g) 0 =
     ship_input (key_vx 0 k) (key_vy 0 k) (fire_key 0 k) (the_ship g 0)"
  by (simp add: HandleInput_simps ship_input_def key_vx_def key_vy_def fire_key_def)

lemma the_ship_HandleInput_1:
  "wf_game g \<Longrightarrow>
   the_ship (HandleInput k g) 1 =
     ship_input (key_vx 1 k) (key_vy 1 k) (fire_key 1 k) (the_ship g 1)"
  by (simp add: HandleInput_simps ship_input_def key_vx_def key_vy_def fire_key_def)

lemma the_ship_HandleInput:
  "wf_game g \<Longrightarrow> i < 2 \<Longrightarrow>
   the_ship (HandleInput k g) i =
     ship_input (key_vx i k) (key_vy i k) (fire_key i k) (the_ship g i)"
  using the_ship_HandleInput_0 [of g k] the_ship_HandleInput_1 [of g k]
  by (auto simp: less_2_cases_iff)

subsection \<open>CheckHits\<close>

lemma hit_step_refl: "wf_game g \<Longrightarrow> hit_step g g"
  by (simp add: hit_step_def)

lemma hit_stepD_ship:
  "hit_step g g' \<Longrightarrow> i < 2 \<Longrightarrow>
   s_x (the_ship g' i) = s_x (the_ship g i) \<and> s_y (the_ship g' i) = s_y (the_ship g i) \<and>
   vx (the_ship g' i) = vx (the_ship g i) \<and> vy (the_ship g' i) = vy (the_ship g i) \<and>
   hp (the_ship g' i) \<le> hp (the_ship g i)"
  by (simp add: hit_step_def)

lemma hit_stepD_proj:
  "hit_step g g' \<Longrightarrow> i < 2 \<Longrightarrow> j < 5 \<Longrightarrow>
   the_proj g' i j = the_proj g i j \<or> the_proj g' i j = (the_proj g i j)\<lparr>p_active := False\<rparr>"
  by (simp add: hit_step_def)

lemma hit_step_trans:
  assumes a: "hit_step g g'" and b: "hit_step g' g''"
  shows "hit_step g g''"
  unfolding hit_step_def
proof (intro conjI allI impI)
  show "wf_game g''" using b by (simp add: hit_step_def)
  show "gmap g'' = gmap g" using a b by (simp add: hit_step_def)
  show "gameOver g''" if "gameOver g" using that a b by (simp add: hit_step_def)
next
  fix i :: nat assume i: "i < 2"
  from hit_stepD_ship [OF a i] hit_stepD_ship [OF b i]
  show "s_x (the_ship g'' i) = s_x (the_ship g i)" and "s_y (the_ship g'' i) = s_y (the_ship g i)"
    and "vx (the_ship g'' i) = vx (the_ship g i)" and "vy (the_ship g'' i) = vy (the_ship g i)"
    and "hp (the_ship g'' i) \<le> hp (the_ship g i)"
    by simp_all
next
  fix i j :: nat assume i: "i < 2" and j: "j < 5"
  from hit_stepD_proj [OF a i j] hit_stepD_proj [OF b i j]
  show "the_proj g'' i j = the_proj g i j \<or> the_proj g'' i j = (the_proj g i j)\<lparr>p_active := False\<rparr>"
    by auto
qed

lemma hit_step_gameOver: "hit_step g g' \<Longrightarrow> hit_step g (g'\<lparr>gameOver := True\<rparr>)"
  by (simp add: hit_step_def)

lemma wf_hit_step: "hit_step g g' \<Longrightarrow> wf_game g'"
  by (simp add: hit_step_def)

lemma hit_step_hit:
  assumes "wf_game g" and "att < 2" and "dfn < 2"
  shows "hit_step g (upd_proj att i (\<lambda>p. p\<lparr>p_active := False\<rparr>)
           (upd_ship dfn (\<lambda>s. s\<lparr>hp := hp s - 1\<rparr>) g))"
proof -
  let ?g1 = "upd_ship dfn (\<lambda>s. s\<lparr>hp := hp s - 1\<rparr>) g"
  have wf1: "wf_game ?g1" using assms by (simp add: wf_upd_ship)
  have pls: "length (players g) = 2" using assms by (simp add: wf_players)
  have ship: "\<And>k. k < 2 \<Longrightarrow> the_ship ?g1 k =
      (if k = dfn then (the_ship g dfn)\<lparr>hp := hp (the_ship g dfn) - 1\<rparr> else the_ship g k)"
    using pls assms by (simp add: the_ship_upd_ship)
  have proj: "\<And>k j. k < 2 \<Longrightarrow> the_proj ?g1 k j = the_proj g k j"
    using ship by (simp add: the_proj_def)
  show ?thesis
    unfolding hit_step_def
  proof (intro conjI allI impI)
    show "wf_game (upd_proj att i (\<lambda>p. p\<lparr>p_active := False\<rparr>) ?g1)"
      using wf1 by (rule wf_upd_proj)
    fix k :: nat assume k: "k < 2"
    show "s_x (the_ship (upd_proj att i (\<lambda>p. p\<lparr>p_active := False\<rparr>) ?g1) k) = s_x (the_ship g k)"
      and "s_y (the_ship (upd_proj att i (\<lambda>p. p\<lparr>p_active := False\<rparr>) ?g1) k) = s_y (the_ship g k)"
      and "vx (the_ship (upd_proj att i (\<lambda>p. p\<lparr>p_active := False\<rparr>) ?g1) k) = vx (the_ship g k)"
      and "vy (the_ship (upd_proj att i (\<lambda>p. p\<lparr>p_active := False\<rparr>) ?g1) k) = vy (the_ship g k)"
      and "hp (the_ship (upd_proj att i (\<lambda>p. p\<lparr>p_active := False\<rparr>) ?g1) k) \<le> hp (the_ship g k)"
      using k pls assms ship by (simp_all add: the_ship_upd_proj)
    fix j :: nat assume j: "j < 5"
    show "the_proj (upd_proj att i (\<lambda>p. p\<lparr>p_active := False\<rparr>) ?g1) k j = the_proj g k j \<or>
        the_proj (upd_proj att i (\<lambda>p. p\<lparr>p_active := False\<rparr>) ?g1) k j =
          (the_proj g k j)\<lparr>p_active := False\<rparr>"
    proof (cases "i < 5")
      case True
      then show ?thesis
        using wf1 assms k j proj by (simp add: the_proj_upd_proj)
    next
      case False
      have "upd_proj att i (\<lambda>p. p\<lparr>p_active := False\<rparr>) ?g1 = ?g1"
        using False wf1 assms
        by (simp add: upd_proj_def upd_ship_id wf_players wf_projectiles list_update_beyond)
      then show ?thesis using proj k by simp
    qed
  qed simp_all
qed

lemma HitLoop_hit_step:
  "wf_game g \<Longrightarrow> att < 2 \<Longrightarrow> dfn < 2 \<Longrightarrow> hit_step g (after (HitLoop att dfn i g))"
proof (induction att dfn i g rule: HitLoop.induct)
  case (1 att dfn i g)
  let ?g2 = "upd_proj att i (\<lambda>p. p\<lparr>p_active := False\<rparr>)
               (upd_ship dfn (\<lambda>s. s\<lparr>hp := hp s - 1\<rparr>) g)"
  have h2: "hit_step g ?g2" using "1.prems" by (rule hit_step_hit)
  show ?case
  proof (cases "i < MAX_PROJECTILES")
    case False
    then show ?thesis
      using "1.prems" by (subst HitLoop.simps) (simp add: after_def hit_step_refl)
  next
    case True
    show ?thesis
    proof (cases "p_active (the_proj g att i) \<and> p_x (the_proj g att i) = s_x (the_ship g dfn)
              \<and> p_y (the_proj g att i) = s_y (the_ship g dfn)")
      case False
      then have "HitLoop att dfn i g = HitLoop att dfn (i + 1) g"
        using True by (subst HitLoop.simps) auto
      then show ?thesis
        using "1.IH"(2) [OF True False "1.prems"] by simp
    next
      case hit: True
      show ?thesis
      proof (cases "hp (the_ship ?g2 dfn) \<le> 0")
        case True
        then have "HitLoop att dfn i g = Inl (?g2\<lparr>gameOver := True\<rparr>)"
          using \<open>i < MAX_PROJECTILES\<close> hit by (subst HitLoop.simps) (simp add: Let_def)
        then show ?thesis
          using h2 by (simp add: after_def hit_step_gameOver)
      next
        case False
        then have eq: "HitLoop att dfn i g = HitLoop att dfn (i + 1) ?g2"
          using \<open>i < MAX_PROJECTILES\<close> hit by (subst HitLoop.simps) (simp add: Let_def)
        have "hit_step ?g2 (after (HitLoop att dfn (i + 1) ?g2))"
          using "1.IH"(1) [OF \<open>i < MAX_PROJECTILES\<close> hit refl refl False wf_hit_step [OF h2]
              "1.prems"(2,3)] .
        with h2 show ?thesis
          unfolding eq by (rule hit_step_trans)
      qed
    qed
  qed
qed

lemma CheckHits_hit_step: "wf_game g \<Longrightarrow> hit_step g (CheckHits g)"
proof -
  assume wf: "wf_game g"
  have a: "hit_step g (after (HitLoop 0 1 0 g))"
    using wf by (simp add: HitLoop_hit_step)
  have b: "hit_step (after (HitLoop 0 1 0 g)) (after (HitLoop 1 0 0 (after (HitLoop 0 1 0 g))))"
    using wf_hit_step [OF a] by (simp add: HitLoop_hit_step)
  show ?thesis
  proof (cases "hp (the_ship g 0) \<le> 0 \<and> hp (the_ship g 1) \<le> 0")
    case True
    then show ?thesis
      using wf by (simp add: CheckHits_def hit_step_gameOver hit_step_refl)
  next
    case False
    show ?thesis
    proof (cases "HitLoop 0 1 0 g")
      case (Inl g')
      with a False show ?thesis by (auto simp: CheckHits_def after_def)
    next
      case (Inr g')
      with a b False show ?thesis
        by (auto simp: CheckHits_def after_def intro: hit_step_trans split: sum.splits)
    qed
  qed
qed

subsection \<open>The invariant of the reachable states\<close>

lemma bay_map_cells:
  "\<forall>row\<in>set bay_map. length row = 20 \<and> (\<forall>c\<in>set row. c = CHR ''#'' \<or> c = CHR ''X'' \<or> c = CHR ''.'')"
  by (simp add: bay_map_def)

lemma length_bay_map: "length bay_map = 10"
  by (simp add: bay_map_def)

lemma not_blocked_open: "\<not> blocked bay_map x y \<Longrightarrow> on_open bay_map x y"
proof -
  assume nb: "\<not> blocked bay_map x y"
  then have x: "0 \<le> x" "x < 20" and y: "0 \<le> y" "y < 10"
    by (simp_all add: blocked_def MAP_WIDTH_def MAP_HEIGHT_def)
  from y have row: "bay_map ! nat y \<in> set bay_map"
    by (simp add: length_bay_map)
  with bay_map_cells have len: "length (bay_map ! nat y) = 20"
    by blast
  with x have "bay_map ! nat y ! nat x \<in> set (bay_map ! nat y)"
    by simp
  with row bay_map_cells have "bay_map ! nat y ! nat x = CHR ''#'' \<or>
      bay_map ! nat y ! nat x = CHR ''X'' \<or> bay_map ! nat y ! nat x = CHR ''.''"
    by blast
  with nb x y show ?thesis
    by (simp add: blocked_def on_open_def MAP_WIDTH_def MAP_HEIGHT_def)
qed

lemma on_open_not_blocked: "on_open m x y \<Longrightarrow> \<not> blocked m x y"
  by (simp add: blocked_def on_open_def)

lemma ship_ok_iff:
  "ship_ok m s \<longleftrightarrow>
     on_open m (s_x s) (s_y s) \<and>
     (\<forall>j<length (projectiles s). p_active (projectiles s ! j) \<longrightarrow>
        on_open m (p_x (projectiles s ! j)) (p_y (projectiles s ! j)))"
  by (auto simp: ship_ok_def list_all_length)

lemma inv_iff:
  "game_inv g \<longleftrightarrow> wf_game g \<and> gmap g = bay_map \<and> (\<forall>i<2. ship_ok bay_map (the_ship g i))"
  by (auto simp: game_inv_def list_all_length the_ship_def wf_players)

lemma ship_ok_ship_input: "ship_ok m s \<Longrightarrow> ship_ok m (ship_input kx ky f s)"
proof -
  assume ok: "ship_ok m s"
  let ?s = "s\<lparr>vx := kx, vy := ky\<rparr>"
  from ok have ok': "ship_ok m ?s"
    by (simp add: ship_ok_def)
  have "ship_ok m (fire ?s)"
    unfolding ship_ok_def list_all_iff
  proof (intro conjI ballI)
    show "on_open m (s_x (fire ?s)) (s_y (fire ?s))"
      using ok by (simp add: fire_def ship_ok_def)
    fix p assume "p \<in> set (projectiles (fire ?s))"
    then have "p = new_shot ?s \<or> p \<in> set (projectiles s)"
      using set_fire_slots [of "new_shot ?s" "projectiles s"] by (auto simp: fire_def)
    then show "\<not> p_active p \<or> on_open m (p_x p) (p_y p)"
      using ok by (auto simp: ship_ok_def list_all_iff new_shot_def)
  qed
  with ok' show ?thesis
    by (simp add: ship_input_def)
qed

lemma ship_ok_after_move:
  "ship_ok bay_map s \<Longrightarrow> ship_ok bay_map (ship_after_move bay_map s)"
  by (auto simp: ship_ok_def ship_after_move_def not_blocked_open)

lemma ship_ok_advance_all:
  "ship_ok bay_map s \<Longrightarrow> ship_ok bay_map (advance_all bay_map s)"
  by (auto simp: ship_ok_def advance_all_def list_all_iff UpdateProjectile_def Let_def
      not_blocked_open)

lemma inv_HandleInput: "game_inv g \<Longrightarrow> game_inv (HandleInput k g)"
  by (simp add: inv_iff wf_HandleInput gmap_HandleInput the_ship_HandleInput ship_ok_ship_input)

lemma inv_UpdateShips: "game_inv g \<Longrightarrow> game_inv (UpdateShips g)"
  by (simp add: inv_iff wf_UpdateShips the_ship_UpdateShips ship_ok_after_move)

lemma inv_UpdateProjectiles: "game_inv g \<Longrightarrow> game_inv (UpdateProjectiles g)"
  by (simp add: inv_iff wf_UpdateProjectiles gmap_UpdateProjectiles the_ship_UpdateProjectiles
      ship_ok_advance_all)

lemma inv_hit_step:
  assumes "game_inv g" and "hit_step g g'"
  shows "game_inv g'"
  unfolding inv_iff
proof (intro conjI allI impI)
  show "wf_game g'" using assms(2) by (rule wf_hit_step)
  show "gmap g' = bay_map" using assms by (simp add: hit_step_def inv_iff)
  fix i :: nat assume i: "i < 2"
  from assms(1) i have ok: "ship_ok bay_map (the_ship g i)" and wf: "wf_game g"
    by (simp_all add: inv_iff)
  have len: "length (projectiles (the_ship g' i)) = 5" "length (projectiles (the_ship g i)) = 5"
    using wf_hit_step [OF assms(2)] wf i by (simp_all add: wf_projectiles)
  show "ship_ok bay_map (the_ship g' i)"
    unfolding ship_ok_iff
  proof (intro conjI allI impI)
    show "on_open bay_map (s_x (the_ship g' i)) (s_y (the_ship g' i))"
      using hit_stepD_ship [OF assms(2) i] ok by (simp add: ship_ok_iff)
    fix j assume j: "j < length (projectiles (the_ship g' i))"
      and act: "p_active (projectiles (the_ship g' i) ! j)"
    from j len have j5: "j < 5" by simp
    from hit_stepD_proj [OF assms(2) i j5] act
    have "the_proj g' i j = the_proj g i j"
      by (auto simp: the_proj_def)
    with act ok j5 len
    show "on_open bay_map (p_x (projectiles (the_ship g' i) ! j))
        (p_y (projectiles (the_ship g' i) ! j))"
      by (simp add: ship_ok_iff the_proj_def)
  qed
qed

lemma inv_CheckHits: "game_inv g \<Longrightarrow> game_inv (CheckHits g)"
  using inv_hit_step [of g "CheckHits g"] CheckHits_hit_step [of g] by (simp add: inv_iff)

lemma inv_Step: "game_inv g \<Longrightarrow> game_inv (Step k g)"
  by (simp add: Step_def inv_HandleInput inv_UpdateShips inv_UpdateProjectiles inv_CheckHits)

lemma inv_mk_game:
  "ship_ok bay_map a \<Longrightarrow> ship_ok bay_map b \<Longrightarrow> length (projectiles a) = 5 \<Longrightarrow>
   length (projectiles b) = 5 \<Longrightarrow> game_inv (mk_game a b ov)"
  by (simp add: game_inv_def wf_mk_game) (simp add: mk_game_def)

lemma on_open_bay_2_2: "on_open bay_map 2 2"
  by (simp add: on_open_def bay_map_def MAP_WIDTH_def MAP_HEIGHT_def)

lemma on_open_bay_18_8: "on_open bay_map 18 8"
  by (simp add: on_open_def bay_map_def MAP_WIDTH_def MAP_HEIGHT_def)

lemma inv_InitGame: "game_inv (InitGame g)"
  unfolding InitGame_eq
  by (rule inv_mk_game)
    (simp_all add: ship_ok_def mk_ship_def idle_def on_open_bay_2_2 on_open_bay_18_8)

lemma inv_foldl_Step: "game_inv g \<Longrightarrow> game_inv (foldl (\<lambda>g k. Step k g) g ks)"
  by (induction ks arbitrary: g) (simp_all add: inv_Step)

lemma inv_run: "game_inv (run ks)"
  by (simp add: run_def inv_InitGame inv_foldl_Step)

subsection \<open>Running the game on concrete states\<close>

lemma the_ship_mk_game [simp]:
  "the_ship (mk_game a b ov) 0 = a" "the_ship (mk_game a b ov) (Suc 0) = b"
  "the_ship (mk_game a b ov) 1 = b"
  by (simp_all add: the_ship_def mk_game_def)

lemma upd_ship_mk_game [simp]:
  "upd_ship 0 f (mk_game a b ov) = mk_game (f a) b ov"
  "upd_ship (Suc 0) f (mk_game a b ov) = mk_game a (f b) ov"
  "upd_ship 1 f (mk_game a b ov) = mk_game a (f b) ov"
  by (simp_all add: upd_ship_def mk_game_def)

lemma gmap_mk_game [simp]: "gmap (mk_game a b ov) = bay_map"
  by (simp add: mk_game_def)

lemma gameOver_mk_game [simp]: "gameOver (mk_game a b ov) = ov"
  by (simp add: mk_game_def)

lemma gameOver_update_mk_game [simp]: "(mk_game a b ov)\<lparr>gameOver := x\<rparr> = mk_game a b x"
  by (simp add: mk_game_def)

lemma HandleInput_mk_game:
  "length (projectiles a) = 5 \<Longrightarrow> length (projectiles b) = 5 \<Longrightarrow>
   HandleInput k (mk_game a b ov) =
     mk_game (ship_input (key_vx 0 k) (key_vy 0 k) (fire_key 0 k) a)
       (ship_input (key_vx 1 k) (key_vy 1 k) (fire_key 1 k) b) ov"
  by (simp add: HandleInput_def Let_def run_if_upd_ship run_if_FireLoop wf_mk_game
      ship_input_def key_vx_def key_vy_def fire_key_def vy_vx_swap)

lemma UpdateShips_mk_game:
  "UpdateShips (mk_game a b ov) =
     mk_game (ship_after_move bay_map a) (ship_after_move bay_map b)
       ((ov \<or> blocked bay_map (s_x a + vx a) (s_y a + vy a) \<and> hp a \<le> 1) \<or>
        blocked bay_map (s_x b + vx b) (s_y b + vy b) \<and> hp b \<le> 1)"
  by (simp add: UpdateShips_eq UpdateShip_def Let_def ship_after_move_def)

lemma UpdateProjectiles_mk_game:
  "length (projectiles a) = 5 \<Longrightarrow> length (projectiles b) = 5 \<Longrightarrow>
   UpdateProjectiles (mk_game a b ov) =
     mk_game (advance_all bay_map a) (advance_all bay_map b) ov"
  by (simp add: UpdateProjectiles_eq wf_mk_game)

lemma the_proj_mk_game [simp]:
  "the_proj (mk_game a b ov) 0 j = projectiles a ! j"
  "the_proj (mk_game a b ov) (Suc 0) j = projectiles b ! j"
  "the_proj (mk_game a b ov) 1 j = projectiles b ! j"
  by (simp_all add: the_proj_def)

lemma upd_proj_mk_game [simp]:
  "upd_proj 0 j f (mk_game a b ov) =
     mk_game (a\<lparr>projectiles := (projectiles a)[j := f (projectiles a ! j)]\<rparr>) b ov"
  "upd_proj (Suc 0) j f (mk_game a b ov) =
     mk_game a (b\<lparr>projectiles := (projectiles b)[j := f (projectiles b ! j)]\<rparr>) ov"
  "upd_proj 1 j f (mk_game a b ov) =
     mk_game a (b\<lparr>projectiles := (projectiles b)[j := f (projectiles b ! j)]\<rparr>) ov"
  by (simp_all add: upd_proj_def)

lemma length_projectiles_after_move [simp]:
  "length (projectiles (ship_after_move m s)) = length (projectiles s)"
  by (simp add: ship_after_move_def)

lemma length_projectiles_advance_all [simp]:
  "length (projectiles (advance_all m s)) = length (projectiles s)"
  by (simp add: advance_all_def)

lemma Step_mk_game:
  "length (projectiles a) = 5 \<Longrightarrow> length (projectiles b) = 5 \<Longrightarrow>
   Step k (mk_game a b False) =
     CheckHits (UpdateProjectiles (UpdateShips
       (mk_game (ship_input (key_vx 0 k) (key_vy 0 k) (fire_key 0 k) a)
          (ship_input (key_vx 1 k) (key_vy 1 k) (fire_key 1 k) b) False)))"
  by (simp add: Step_def HandleInput_mk_game)

lemmas key_defs = key_vx_def key_vy_def fire_key_def no_keys_def MAX_SPEED_def

lemmas ship_defs = ship_input_def fire_def new_shot_def ship_after_move_def advance_all_def
  UpdateProjectile_def mk_ship_def idle_def shot_def Let_def

lemmas blocked_defs = blocked_def bay_map_def MAP_WIDTH_def MAP_HEIGHT_def

lemmas hit_defs = CheckHits_def HitLoop.simps MAX_PROJECTILES_def mk_ship_def idle_def shot_def
  Let_def

lemmas step_defs = Step_mk_game UpdateShips_mk_game UpdateProjectiles_mk_game key_defs ship_defs
  blocked_defs hit_defs

lemma duel_1:
  "Step kA_up_B_down (mk_game (mk_ship 2 2 3 0 0 idle) (mk_ship 18 8 3 0 0 idle) False) =
     mk_game (mk_ship 2 1 3 0 (-1) idle) (mk_ship 18 8 2 0 1 idle) False"
  by (simp add: step_defs kA_up_B_down_def)

lemma duel_2:
  "Step kA_up_B_down (mk_game (mk_ship 2 1 3 0 (-1) idle) (mk_ship 18 8 2 0 1 idle) False) =
     mk_game (mk_ship 2 1 2 0 (-1) idle) (mk_ship 18 8 1 0 1 idle) False"
  by (simp add: step_defs kA_up_B_down_def)

lemma duel_3:
  "Step kA_up_B_upleft (mk_game (mk_ship 2 1 2 0 (-1) idle) (mk_ship 18 8 1 0 1 idle) False) =
     mk_game (mk_ship 2 1 1 0 (-1) idle) (mk_ship 17 7 1 (-1) (-1) idle) False"
  by (simp add: step_defs kA_up_B_upleft_def)

lemma duel_4:
  "Step kA_right_B_upleft
     (mk_game (mk_ship 2 1 1 0 (-1) idle) (mk_ship 17 7 1 (-1) (-1) idle) False) =
     mk_game (mk_ship 3 1 1 1 0 idle) (mk_ship 16 6 1 (-1) (-1) idle) False"
  by (simp add: step_defs kA_right_B_upleft_def)

lemma duel_5:
  "Step kA_right_B_upleft
     (mk_game (mk_ship 3 1 1 1 0 idle) (mk_ship 16 6 1 (-1) (-1) idle) False) =
     mk_game (mk_ship 4 1 1 1 0 idle) (mk_ship 15 5 1 (-1) (-1) idle) False"
  by (simp add: step_defs kA_right_B_upleft_def)

lemma duel_6:
  "Step kA_right_B_upleft
     (mk_game (mk_ship 4 1 1 1 0 idle) (mk_ship 15 5 1 (-1) (-1) idle) False) =
     mk_game (mk_ship 5 1 1 1 0 idle) (mk_ship 14 4 1 (-1) (-1) idle) False"
  by (simp add: step_defs kA_right_B_upleft_def)

lemma duel_7:
  "Step kA_right_B_upleft
     (mk_game (mk_ship 5 1 1 1 0 idle) (mk_ship 14 4 1 (-1) (-1) idle) False) =
     mk_game (mk_ship 6 1 1 1 0 idle) (mk_ship 13 3 1 (-1) (-1) idle) False"
  by (simp add: step_defs kA_right_B_upleft_def)

lemma duel_8:
  "Step kA_right_B_upleft
     (mk_game (mk_ship 6 1 1 1 0 idle) (mk_ship 13 3 1 (-1) (-1) idle) False) =
     mk_game (mk_ship 7 1 1 1 0 idle) (mk_ship 12 2 1 (-1) (-1) idle) False"
  by (simp add: step_defs kA_right_B_upleft_def)

lemma duel_9:
  "Step kA_right_B_upleft
     (mk_game (mk_ship 7 1 1 1 0 idle) (mk_ship 12 2 1 (-1) (-1) idle) False) =
     mk_game (mk_ship 8 1 1 1 0 idle) (mk_ship 11 1 1 (-1) (-1) idle) False"
  by (simp add: step_defs kA_right_B_upleft_def)

lemma duel_10:
  "Step k_fire_both
     (mk_game (mk_ship 8 1 1 1 0 idle) (mk_ship 11 1 1 (-1) (-1) idle) False) = duel_state"
  by (simp add: step_defs k_fire_both_def duel_state_def)

lemma run_duel_keys: "run duel_keys = duel_state"
  unfolding run_def duel_keys_def InitGame_eq
  by (simp only: foldl_Cons foldl_Nil duel_1 duel_2 duel_3 duel_4 duel_5 duel_6 duel_7 duel_8
      duel_9 duel_10)

lemma run_snoc: "run (ks @ [k]) = Step k (run ks)"
  by (simp add: run_def)

lemma duel_idle:
  "Step no_keys duel_state =
     mk_game (mk_ship 9 1 1 0 0 (shot 10 1 1 0 False))
       (mk_ship 10 1 0 0 0 (shot 9 1 (-1) 0 True)) True"
  by (simp add: step_defs duel_state_def)

lemma duel_B_rams:
  "Step kB_ram duel_state =
     mk_game (mk_ship 9 1 1 0 0 (shot 10 1 1 0 False))
       (mk_ship 10 1 (-1) 0 (-1) (shot 9 1 (-1) 0 True)) True"
  by (simp add: step_defs duel_state_def kB_ram_def)

lemma duel_A_rams:
  "Step kA_ram duel_state =
     mk_game (mk_ship 9 1 0 0 (-1) (shot 10 1 1 0 False))
       (mk_ship 10 1 0 0 0 (shot 9 1 (-1) 0 True)) True"
  by (simp add: step_defs duel_state_def kA_ram_def)

section \<open>The claims\<close>

subsection \<open>C3: the initial placement\<close>

text \<open>
  C3 says that on the 20 by 10 bordered grid ship A starts at (2, 2) with health 3 and ship
  B at (17, 7) with health 3. \<open>InitGame\<close> places ship B at
  \<open>(MAP_WIDTH - 2, MAP_HEIGHT - 2)\<close>, which is (18, 8); so the claim fails for ship B.
\<close>

theorem InitGame_shipB_not_at_17_7:
  "\<not> (s_x (the_ship (InitGame zero_GameState) 1) = 17 \<and>
      s_y (the_ship (InitGame zero_GameState) 1) = 7)"
  by (simp add: InitGame_eq mk_ship_def)

text \<open>
  C3, amended: after \<open>InitGame\<close>, whatever the memory held before, the map is the 20 by
  10 bordered grid \<open>bay_map\<close>, ship A is at (2, 2) with health 3, ship B is at (18, 8)
  with health 3, and the game is not over.
\<close>

theorem InitGame_placement:
  "gmap (InitGame g) = bay_map \<and>
   s_x (the_ship (InitGame g) 0) = 2 \<and> s_y (the_ship (InitGame g) 0) = 2 \<and>
   hp (the_ship (InitGame g) 0) = 3 \<and>
   s_x (the_ship (InitGame g) 1) = 18 \<and> s_y (the_ship (InitGame g) 1) = 8 \<and>
   hp (the_ship (InitGame g) 1) = 3 \<and>
   \<not> gameOver (InitGame g)"
  by (simp add: InitGame_eq mk_ship_def)

subsection \<open>C4: the terminal freeze\<close>

text \<open>
  C4: once \<open>gameOver\<close> is set, a further step changes nothing. The loop of \<open>main\<close> runs
  the four phases only under \<open>if (!game.gameOver)\<close>, so the whole state, and with it
  both positions, both healths and every projectile slot, is the same after the step.
\<close>

theorem Step_frozen: "gameOver g \<Longrightarrow> Step k g = g"
  by (simp add: Step_def)

theorem Step_frozen_witness:
  "gameOver (Step no_keys duel_state) \<and>
   Step k_fire_both (Step no_keys duel_state) = Step no_keys duel_state \<and>
   the_ship (Step k_fire_both (Step no_keys duel_state)) 0 =
     mk_ship 9 1 1 0 0 (shot 10 1 1 0 False)"
proof -
  have over: "gameOver (Step no_keys duel_state)"
    by (simp add: duel_idle)
  from Step_frozen [OF over, of k_fire_both] over show ?thesis
    by (simp add: duel_idle)
qed

subsection \<open>C5: ships stay on open cells\<close>

text \<open>
  C5: in every state that the game reaches from the initial placement, after any number of
  steps with any keys, the map is still the one built at start and both ships are on open
  cells of it: inside \<open>[0, MAP_WIDTH) \<times> [0, MAP_HEIGHT)\<close>, on a cell that is neither
  wall nor obstacle.
\<close>

theorem ships_on_open_cells:
  "gmap (run ks) = bay_map \<and>
   on_open (gmap (run ks)) (s_x (the_ship (run ks) 0)) (s_y (the_ship (run ks) 0)) \<and>
   on_open (gmap (run ks)) (s_x (the_ship (run ks) 1)) (s_y (the_ship (run ks) 1))"
  using inv_run [of ks] by (simp add: inv_iff ship_ok_iff)

theorem ships_on_open_cells_witness:
  "on_open bay_map 9 1 \<and> on_open bay_map 10 1"
  using ships_on_open_cells [of duel_keys]
  by (simp add: run_duel_keys duel_state_def mk_ship_def)

subsection \<open>C9: active projectiles stay on open cells\<close>

text \<open>
  C9: in every state that the game reaches, every active projectile of either ship is
  inside the map and on an open cell. A shot is created on the cell of its ship, which is
  open by the invariant, and \<open>UpdateProjectiles\<close> moves a projectile only to a cell that
  is not blocked.
\<close>

theorem active_projectiles_on_open_cells:
  "i < MAX_PLAYERS \<Longrightarrow> j < MAX_PROJECTILES \<Longrightarrow> p_active (the_proj (run ks) i j) \<Longrightarrow>
   on_open (gmap (run ks)) (p_x (the_proj (run ks) i j)) (p_y (the_proj (run ks) i j))"
  using inv_run [of ks]
  by (simp add: inv_iff ship_ok_iff the_proj_def wf_projectiles MAX_PLAYERS_def
      MAX_PROJECTILES_def)

theorem active_projectiles_on_open_cells_witness:
  "(0::nat) < MAX_PLAYERS \<and> (0::nat) < MAX_PROJECTILES \<and>
   the_proj (run duel_keys) 0 0 = shot 9 1 1 0 True \<and> on_open bay_map 9 1"
proof -
  have a: "(0::nat) < MAX_PLAYERS" "(0::nat) < MAX_PROJECTILES"
    by (simp_all add: MAX_PLAYERS_def MAX_PROJECTILES_def)
  have p: "the_proj (run duel_keys) 0 0 = shot 9 1 1 0 True"
    by (simp add: run_duel_keys duel_state_def mk_ship_def)
  have act: "p_active (the_proj (run duel_keys) 0 0)"
    by (simp add: p shot_def)
  from active_projectiles_on_open_cells [OF a act] a p show ?thesis
    by (simp add: run_duel_keys shot_def duel_state_def)
qed

subsection \<open>C6: collision damage\<close>

text \<open>
  C6: \<open>UpdateShips\<close> treats each ship by its own position and velocity. When the target
  cell, position plus velocity, is blocked (out of range, wall or obstacle), the ship loses
  exactly one health point and nothing else of it changes, in particular not its position;
  otherwise the ship moves to the target cell and nothing else of it changes. The rule
  reads no history, so it applies in every tick. With velocity (0, 0) on an open cell the
  ship is left as it is.
\<close>

theorem UpdateShips_collision_or_move:
  assumes "wf_game g" and "i < MAX_PLAYERS"
  shows "(blocked (gmap g) (s_x (the_ship g i) + vx (the_ship g i))
              (s_y (the_ship g i) + vy (the_ship g i)) \<longrightarrow>
            the_ship (UpdateShips g) i = (the_ship g i)\<lparr>hp := hp (the_ship g i) - 1\<rparr>) \<and>
         (\<not> blocked (gmap g) (s_x (the_ship g i) + vx (the_ship g i))
              (s_y (the_ship g i) + vy (the_ship g i)) \<longrightarrow>
            the_ship (UpdateShips g) i =
              (the_ship g i)\<lparr>s_x := s_x (the_ship g i) + vx (the_ship g i),
                              s_y := s_y (the_ship g i) + vy (the_ship g i)\<rparr>) \<and>
         (vx (the_ship g i) = 0 \<and> vy (the_ship g i) = 0 \<and>
            on_open (gmap g) (s_x (the_ship g i)) (s_y (the_ship g i)) \<longrightarrow>
            the_ship (UpdateShips g) i = the_ship g i)"
  using assms
  by (auto simp: the_ship_UpdateShips ship_after_move_def MAX_PLAYERS_def
      dest: on_open_not_blocked)

theorem UpdateShips_collision_or_move_witness:
  "wf_game wall_state \<and> (0::nat) < MAX_PLAYERS \<and> (1::nat) < MAX_PLAYERS \<and>
   blocked (gmap wall_state) (2 + 0) (1 + (-1)) \<and>
   the_ship wall_state 0 = mk_ship 2 1 3 0 (-1) idle \<and>
   the_ship (UpdateShips wall_state) 0 = mk_ship 2 1 2 0 (-1) idle \<and>
   the_ship (UpdateShips (UpdateShips wall_state)) 0 = mk_ship 2 1 1 0 (-1) idle \<and>
   on_open (gmap wall_state) 18 8 \<and>
   the_ship (UpdateShips wall_state) 1 = mk_ship 18 8 3 0 0 idle"
proof -
  have wf: "wf_game wall_state" "wf_game (UpdateShips wall_state)"
    by (simp_all add: wall_state_def wf_mk_game UpdateShips_mk_game)
  have n: "(0::nat) < MAX_PLAYERS" "(1::nat) < MAX_PLAYERS"
    by (simp_all add: MAX_PLAYERS_def)
  have b: "blocked bay_map 2 0" "on_open bay_map 18 8" "\<not> blocked bay_map 18 8"
    by (simp_all add: blocked_defs on_open_def)
  from UpdateShips_collision_or_move [OF wf(1) n(1)]
  have s1: "the_ship (UpdateShips wall_state) 0 = mk_ship 2 1 2 0 (-1) idle"
    using b by (simp add: wall_state_def mk_ship_def)
  from UpdateShips_collision_or_move [OF wf(2) n(1)] s1
  have s2: "the_ship (UpdateShips (UpdateShips wall_state)) 0 = mk_ship 2 1 1 0 (-1) idle"
    using b by (simp add: wall_state_def mk_ship_def UpdateShips_mk_game)
  from UpdateShips_collision_or_move [OF wf(1) n(2)]
  have s3: "the_ship (UpdateShips wall_state) 1 = mk_ship 18 8 3 0 0 idle"
    using b by (simp add: wall_state_def mk_ship_def)
  from wf n b s1 s2 s3 show ?thesis
    by (simp add: wall_state_def)
qed

subsection \<open>C7: projectile advancement\<close>

text \<open>
  C7: \<open>UpdateProjectiles\<close> treats each slot by its own content. An active projectile
  whose next cell, position plus direction, is blocked becomes inactive and keeps its
  position; an active projectile whose next cell is not blocked moves there and stays
  active; an inactive slot is left as it is. So a projectile one step away from a blocking
  cell in its direction is active before the call and inactive after it.
\<close>

theorem UpdateProjectiles_slot:
  assumes "wf_game g" and "i < MAX_PLAYERS" and "j < MAX_PROJECTILES"
  shows "(p_active (the_proj g i j) \<and>
            blocked (gmap g) (p_x (the_proj g i j) + p_dx (the_proj g i j))
              (p_y (the_proj g i j) + p_dy (the_proj g i j)) \<longrightarrow>
            the_proj (UpdateProjectiles g) i j = (the_proj g i j)\<lparr>p_active := False\<rparr>) \<and>
         (p_active (the_proj g i j) \<and>
            \<not> blocked (gmap g) (p_x (the_proj g i j) + p_dx (the_proj g i j))
              (p_y (the_proj g i j) + p_dy (the_proj g i j)) \<longrightarrow>
            the_proj (UpdateProjectiles g) i j =
              (the_proj g i j)\<lparr>p_x := p_x (the_proj g i j) + p_dx (the_proj g i j),
                                p_y := p_y (the_proj g i j) + p_dy (the_proj g i j)\<rparr>) \<and>
         (\<not> p_active (the_proj g i j) \<longrightarrow>
            the_proj (UpdateProjectiles g) i j = the_proj g i j)"
proof -
  from assms have i: "i < 2" and j: "j < 5"
    by (simp_all add: MAX_PLAYERS_def MAX_PROJECTILES_def)
  have "the_proj (UpdateProjectiles g) i j = UpdateProjectile (gmap g) (the_proj g i j)"
    using assms(1) i j wf_projectiles [OF assms(1) i]
    by (simp add: the_proj_def the_ship_UpdateProjectiles advance_all_def)
  then show ?thesis
    by (simp add: UpdateProjectile_def Let_def)
qed

theorem UpdateProjectiles_slot_witness:
  "wf_game obstacle_state \<and> (0::nat) < MAX_PLAYERS \<and> (0::nat) < MAX_PROJECTILES \<and>
   (1::nat) < MAX_PROJECTILES \<and>
   the_proj obstacle_state 0 0 = shot 4 3 1 0 True \<and> blocked (gmap obstacle_state) (4 + 1) (3 + 0) \<and>
   the_proj (UpdateProjectiles obstacle_state) 0 0 = shot 4 3 1 0 False \<and>
   the_proj (UpdateProjectiles obstacle_state) 0 1 = idle \<and>
   the_proj duel_state 0 0 = shot 9 1 1 0 True \<and> \<not> blocked (gmap duel_state) (9 + 1) (1 + 0) \<and>
   the_proj (UpdateProjectiles duel_state) 0 0 = shot 10 1 1 0 True"
proof -
  have wf: "wf_game obstacle_state" "wf_game duel_state"
    by (simp_all add: obstacle_state_def duel_state_def wf_mk_game)
  have n: "(0::nat) < MAX_PLAYERS" "(0::nat) < MAX_PROJECTILES" "(1::nat) < MAX_PROJECTILES"
    by (simp_all add: MAX_PLAYERS_def MAX_PROJECTILES_def)
  have b: "blocked bay_map 5 3" "\<not> blocked bay_map 10 1"
    by (simp_all add: blocked_defs)
  have p: "the_proj obstacle_state 0 0 = shot 4 3 1 0 True" "the_proj obstacle_state 0 1 = idle"
    "the_proj duel_state 0 0 = shot 9 1 1 0 True"
    by (simp_all add: obstacle_state_def duel_state_def mk_ship_def)
  from UpdateProjectiles_slot [OF wf(1) n(1) n(2)]
  have a: "the_proj (UpdateProjectiles obstacle_state) 0 0 = shot 4 3 1 0 False"
    using b by (simp add: p) (simp add: shot_def obstacle_state_def)
  have p1: "the_proj obstacle_state 0 (Suc 0) = idle"
    using p(2) by simp
  from UpdateProjectiles_slot [OF wf(1) n(1) n(3)]
  have c: "the_proj (UpdateProjectiles obstacle_state) 0 1 = idle"
    by (simp add: p1) (simp add: idle_def)
  from UpdateProjectiles_slot [OF wf(2) n(1) n(2)]
  have d: "the_proj (UpdateProjectiles duel_state) 0 0 = shot 10 1 1 0 True"
    using b by (simp add: p) (simp add: shot_def duel_state_def)
  from wf n b p a c d show ?thesis
    by (simp add: obstacle_state_def duel_state_def)
qed

subsection \<open>C8: firing into the first free slot\<close>

text \<open>
  C8: the firing loop of \<open>HandleInput\<close> scans the five slots of the firing ship in
  ascending order. When all five are active the loop changes nothing: the whole state is
  the same. Otherwise, with \<open>i\<close> the first inactive slot, the only change to the state
  is that slot \<open>i\<close> becomes \<open>new_shot\<close> of the ship: positioned at the ship, directed
  along its velocity (upwards when the velocity is (0, 0)), and active; every other slot
  of either ship is as before.
\<close>

theorem FireLoop_first_free_slot:
  assumes "wf_game g" and "pl < MAX_PLAYERS"
  shows "((\<forall>j<MAX_PROJECTILES. p_active (the_proj g pl j)) \<longrightarrow> FireLoop pl 0 g = g) \<and>
         (\<forall>i<MAX_PROJECTILES.
            \<not> p_active (the_proj g pl i) \<and> (\<forall>j<i. p_active (the_proj g pl j)) \<longrightarrow>
            FireLoop pl 0 g = upd_proj pl i (\<lambda>p. new_shot (the_ship g pl)) g \<and>
            the_proj (FireLoop pl 0 g) pl i = new_shot (the_ship g pl) \<and>
            (\<forall>pl'<MAX_PLAYERS. \<forall>j<MAX_PROJECTILES. pl' \<noteq> pl \<or> j \<noteq> i \<longrightarrow>
               the_proj (FireLoop pl 0 g) pl' j = the_proj g pl' j))"
proof -
  from assms have pl: "pl < 2" by (simp add: MAX_PLAYERS_def)
  note len = wf_projectiles [OF assms(1) pl] and pls = wf_players [OF assms(1)]
  note eq = FireLoop_eq [OF assms(1) pl]
  have full: "FireLoop pl 0 g = g" if "\<forall>j<MAX_PROJECTILES. p_active (the_proj g pl j)"
  proof -
    from that len have "fire_slots (new_shot (the_ship g pl)) (projectiles (the_ship g pl)) =
        projectiles (the_ship g pl)"
      by (intro fire_slots_full) (simp add: MAX_PROJECTILES_def the_proj_def)
    then show ?thesis
      using pl pls by (simp add: eq fire_def upd_ship_id)
  qed
  have first: "FireLoop pl 0 g = upd_proj pl i (\<lambda>p. new_shot (the_ship g pl)) g"
    if "i < MAX_PROJECTILES" "\<not> p_active (the_proj g pl i)" "\<forall>j<i. p_active (the_proj g pl j)"
    for i
  proof -
    from that len have "fire_slots (new_shot (the_ship g pl)) (projectiles (the_ship g pl)) =
        (projectiles (the_ship g pl))[i := new_shot (the_ship g pl)]"
      by (intro fire_slots_first) (simp_all add: MAX_PROJECTILES_def the_proj_def)
    then show ?thesis
      unfolding eq upd_proj_def by (intro upd_ship_cong) (simp add: fire_def)
  qed
  show ?thesis
  proof (intro conjI allI impI)
    assume "\<forall>j<MAX_PROJECTILES. p_active (the_proj g pl j)"
    then show "FireLoop pl 0 g = g" by (rule full)
  next
    fix i
    assume i: "i < MAX_PROJECTILES"
      and free: "\<not> p_active (the_proj g pl i) \<and> (\<forall>j<i. p_active (the_proj g pl j))"
    from first [OF i] free
    show e: "FireLoop pl 0 g = upd_proj pl i (\<lambda>p. new_shot (the_ship g pl)) g"
      by simp
    from i have i5: "i < 5" by (simp add: MAX_PROJECTILES_def)
    show "the_proj (FireLoop pl 0 g) pl i = new_shot (the_ship g pl)"
      using assms(1) pl i5 by (simp add: e the_proj_upd_proj)
    fix pl' j
    assume "pl' < MAX_PLAYERS" "j < MAX_PROJECTILES" "pl' \<noteq> pl \<or> j \<noteq> i"
    then show "the_proj (FireLoop pl 0 g) pl' j = the_proj g pl' j"
      using assms(1) pl i5 by (auto simp: e the_proj_upd_proj)
  qed
qed

theorem FireLoop_first_free_slot_witness:
  "wf_game full_state \<and> wf_game duel_state \<and> (0::nat) < MAX_PLAYERS \<and>
   p_active (the_proj full_state 0 0) \<and> p_active (the_proj full_state 0 1) \<and>
   p_active (the_proj full_state 0 2) \<and> p_active (the_proj full_state 0 3) \<and>
   p_active (the_proj full_state 0 4) \<and>
   FireLoop 0 0 full_state = full_state \<and>
   (1::nat) < MAX_PROJECTILES \<and> p_active (the_proj duel_state 0 0) \<and>
   \<not> p_active (the_proj duel_state 0 1) \<and>
   the_proj (FireLoop 0 0 duel_state) 0 1 = shot 9 1 1 0 True \<and>
   the_proj (FireLoop 0 0 duel_state) 0 0 = the_proj duel_state 0 0"
proof -
  have wf: "wf_game full_state" "wf_game duel_state"
    by (simp_all add: full_state_def duel_state_def wf_mk_game)
  have n: "(0::nat) < MAX_PLAYERS" "(1::nat) < MAX_PROJECTILES" "(0::nat) < MAX_PROJECTILES"
    by (simp_all add: MAX_PLAYERS_def MAX_PROJECTILES_def)
  have all: "\<forall>j<MAX_PROJECTILES. p_active (the_proj full_state 0 j)"
    by (simp add: MAX_PROJECTILES_def full_state_def shot_def less_Suc_eq numeral_eq_Suc
        all_conj_distrib)
  have free: "\<not> p_active (the_proj duel_state 0 1)" "\<forall>j<1. p_active (the_proj duel_state 0 j)"
    by (simp_all add: duel_state_def mk_ship_def idle_def shot_def)
  have new: "new_shot (the_ship duel_state 0) = shot 9 1 1 0 True"
    by (simp add: duel_state_def mk_ship_def new_shot_def shot_def)
  from FireLoop_first_free_slot [OF wf(1) n(1)] all
  have a: "FireLoop 0 0 full_state = full_state"
    by blast
  from FireLoop_first_free_slot [OF wf(2) n(1)] n free
  have b: "the_proj (FireLoop 0 0 duel_state) 0 1 = new_shot (the_ship duel_state 0)"
    and c: "the_proj (FireLoop 0 0 duel_state) 0 0 = the_proj duel_state 0 0"
    by auto
  have each: "p_active (the_proj full_state 0 0)" "p_active (the_proj full_state 0 1)"
    "p_active (the_proj full_state 0 2)" "p_active (the_proj full_state 0 3)"
    "p_active (the_proj full_state 0 4)" "p_active (the_proj duel_state 0 0)"
    by (simp_all add: full_state_def duel_state_def mk_ship_def shot_def)
  from wf n each free(1) a b c new show ?thesis
    by simp
qed

subsection \<open>C2: the order of firing and movement\<close>

text \<open>
  C2 says that within a step movement is applied before firing, so that a shot spawned in
  a tick in which the ship also moves originates at the position after the movement. The
  loop of \<open>main\<close> calls \<open>HandleInput\<close>, which fires, before \<open>UpdateShips\<close>, which
  moves. From the initial state with D and Left Shift pressed, the shot of ship A is
  created at (2, 2), where the ship is before it moves to (3, 2); at the end of the step,
  after its one advance, the shot is at (3, 2), not at (4, 2).
\<close>

theorem shot_origin_is_not_post_movement:
  "p_x (the_proj (HandleInput k_fire_right (InitGame zero_GameState)) 0 0) \<noteq>
     s_x (the_ship (UpdateShips (HandleInput k_fire_right (InitGame zero_GameState))) 0) \<and>
   the_proj (HandleInput k_fire_right (InitGame zero_GameState)) 0 0 = shot 2 2 1 0 True \<and>
   s_x (the_ship (UpdateShips (HandleInput k_fire_right (InitGame zero_GameState))) 0) = 3 \<and>
   s_y (the_ship (UpdateShips (HandleInput k_fire_right (InitGame zero_GameState))) 0) = 2 \<and>
   the_proj (Step k_fire_right (InitGame zero_GameState)) 0 0 = shot 3 2 1 0 True"
  by (simp add: InitGame_eq step_defs HandleInput_mk_game k_fire_right_def)

text \<open>
  C2, amended: within every step firing is applied before movement. When the fire key of
  player \<open>pl\<close> is pressed and slot \<open>i\<close> is the first inactive slot of the ship,
  \<open>HandleInput\<close> makes slot \<open>i\<close> an active shot at the position that the ship has at the
  start of the step, before it moves, with direction equal to the velocity of this tick
  and (0, -1) when that velocity is (0, 0). \<open>UpdateShips\<close> then leaves the shot as it is
  and moves the ship by this same velocity, unless its target cell is blocked and the ship
  stays. In a running game the step goes on with \<open>UpdateProjectiles\<close> and \<open>CheckHits\<close>:
  at its end the ship is where \<open>UpdateShips\<close> put it, and the shot is one step in its
  direction away from the ship's position at the start of the step, or inactive at that
  position when the cell one step away is blocked.
\<close>

theorem shot_spawns_before_movement:
  assumes "wf_game g" and "pl < MAX_PLAYERS" and "fire_key pl k"
    and "i < MAX_PROJECTILES" and "\<not> p_active (the_proj g pl i)"
    and "\<forall>j<i. p_active (the_proj g pl j)"
  shows "the_proj (HandleInput k g) pl i =
           \<lparr>p_x = s_x (the_ship g pl), p_y = s_y (the_ship g pl), p_dx = key_vx pl k,
            p_dy = (if key_vx pl k = 0 \<and> key_vy pl k = 0 then -1 else key_vy pl k),
            p_active = True\<rparr> \<and>
         the_proj (UpdateShips (HandleInput k g)) pl i = the_proj (HandleInput k g) pl i \<and>
         vx (the_ship (UpdateShips (HandleInput k g)) pl) = key_vx pl k \<and>
         vy (the_ship (UpdateShips (HandleInput k g)) pl) = key_vy pl k \<and>
         (blocked (gmap g) (s_x (the_ship g pl) + key_vx pl k)
              (s_y (the_ship g pl) + key_vy pl k) \<longrightarrow>
            s_x (the_ship (UpdateShips (HandleInput k g)) pl) = s_x (the_ship g pl) \<and>
            s_y (the_ship (UpdateShips (HandleInput k g)) pl) = s_y (the_ship g pl)) \<and>
         (\<not> blocked (gmap g) (s_x (the_ship g pl) + key_vx pl k)
              (s_y (the_ship g pl) + key_vy pl k) \<longrightarrow>
            s_x (the_ship (UpdateShips (HandleInput k g)) pl) =
              s_x (the_ship g pl) + key_vx pl k \<and>
            s_y (the_ship (UpdateShips (HandleInput k g)) pl) =
              s_y (the_ship g pl) + key_vy pl k) \<and>
         (\<not> gameOver g \<longrightarrow>
            Step k g = CheckHits (UpdateProjectiles (UpdateShips (HandleInput k g))) \<and>
            s_x (the_ship (Step k g) pl) = s_x (the_ship (UpdateShips (HandleInput k g)) pl) \<and>
            s_y (the_ship (Step k g) pl) = s_y (the_ship (UpdateShips (HandleInput k g)) pl) \<and>
            p_dx (the_proj (Step k g) pl i) = key_vx pl k \<and>
            p_dy (the_proj (Step k g) pl i) =
              (if key_vx pl k = 0 \<and> key_vy pl k = 0 then -1 else key_vy pl k) \<and>
            (blocked (gmap g) (s_x (the_ship g pl) + key_vx pl k)
                 (s_y (the_ship g pl) +
                    (if key_vx pl k = 0 \<and> key_vy pl k = 0 then -1 else key_vy pl k)) \<longrightarrow>
               \<not> p_active (the_proj (Step k g) pl i) \<and>
               p_x (the_proj (Step k g) pl i) = s_x (the_ship g pl) \<and>
               p_y (the_proj (Step k g) pl i) = s_y (the_ship g pl)) \<and>
            (\<not> blocked (gmap g) (s_x (the_ship g pl) + key_vx pl k)
                 (s_y (the_ship g pl) +
                    (if key_vx pl k = 0 \<and> key_vy pl k = 0 then -1 else key_vy pl k)) \<longrightarrow>
               p_x (the_proj (Step k g) pl i) = s_x (the_ship g pl) + key_vx pl k \<and>
               p_y (the_proj (Step k g) pl i) =
                 s_y (the_ship g pl) +
                   (if key_vx pl k = 0 \<and> key_vy pl k = 0 then -1 else key_vy pl k)))"
proof -
  from assms have pl: "pl < 2" and i: "i < 5"
    by (simp_all add: MAX_PLAYERS_def MAX_PROJECTILES_def)
  note len = wf_projectiles [OF assms(1) pl]
  let ?s = "(the_ship g pl)\<lparr>vx := key_vx pl k, vy := key_vy pl k\<rparr>"
  let ?dy = "if key_vx pl k = 0 \<and> key_vy pl k = 0 then -1 else key_vy pl k"
  let ?shot = "\<lparr>p_x = s_x (the_ship g pl), p_y = s_y (the_ship g pl), p_dx = key_vx pl k,
       p_dy = ?dy, p_active = True\<rparr>"
  let ?g1 = "HandleInput k g"
  let ?g2 = "UpdateShips ?g1"
  let ?g3 = "UpdateProjectiles ?g2"
  have wf1: "wf_game ?g1" using assms(1) by (rule wf_HandleInput)
  have wf2: "wf_game ?g2" using wf1 by (rule wf_UpdateShips)
  have wf3: "wf_game ?g3" using wf2 by (rule wf_UpdateProjectiles)
  have m2: "gmap ?g2 = gmap g"
    using assms(1) by (simp add: gmap_HandleInput)
  have ship: "the_ship ?g1 pl = fire ?s"
    using assms(1,3) pl by (simp add: the_ship_HandleInput ship_input_def)
  have "fire_slots (new_shot ?s) (projectiles ?s) = (projectiles ?s)[i := new_shot ?s]"
    using assms(5,6) i len by (intro fire_slots_first) (simp_all add: the_proj_def)
  then have a: "the_proj ?g1 pl i = new_shot ?s"
    using i len by (simp add: the_proj_def ship fire_def)
  have moved: "the_ship ?g2 pl = ship_after_move (gmap g) (fire ?s)"
    using assms(1) pl
    by (simp add: the_ship_UpdateShips wf_HandleInput gmap_HandleInput ship)
  have ns: "new_shot ?s = ?shot"
    by (simp add: new_shot_def)
  have b: "the_proj ?g2 pl i = the_proj ?g1 pl i"
    by (simp add: the_proj_def moved ship ship_after_move_def)
  have v: "vx (the_ship ?g2 pl) = key_vx pl k" "vy (the_ship ?g2 pl) = key_vy pl k"
    by (simp_all add: moved ship_after_move_def fire_def)
  have pos_blocked: "s_x (the_ship ?g2 pl) = s_x (the_ship g pl) \<and>
      s_y (the_ship ?g2 pl) = s_y (the_ship g pl)"
    if "blocked (gmap g) (s_x (the_ship g pl) + key_vx pl k) (s_y (the_ship g pl) + key_vy pl k)"
    using that by (simp add: moved ship_after_move_def fire_def)
  have pos_free: "s_x (the_ship ?g2 pl) = s_x (the_ship g pl) + key_vx pl k \<and>
      s_y (the_ship ?g2 pl) = s_y (the_ship g pl) + key_vy pl k"
    if "\<not> blocked (gmap g) (s_x (the_ship g pl) + key_vx pl k)
      (s_y (the_ship g pl) + key_vy pl k)"
    using that by (simp add: moved ship_after_move_def fire_def)
  have p3: "the_proj ?g3 pl i = UpdateProjectile (gmap g) ?shot"
    using wf2 pl i wf_projectiles [OF wf2 pl] a b ns
    by (simp add: the_proj_def the_ship_UpdateProjectiles advance_all_def
        gmap_HandleInput [OF assms(1)])
  have s3: "s_x (the_ship ?g3 pl) = s_x (the_ship ?g2 pl)"
    "s_y (the_ship ?g3 pl) = s_y (the_ship ?g2 pl)"
    using wf2 pl by (simp_all add: the_ship_UpdateProjectiles advance_all_def)
  have hs: "hit_step ?g3 (CheckHits ?g3)"
    using wf3 by (rule CheckHits_hit_step)
  note p4 = hit_stepD_proj [OF hs pl i] and s4 = hit_stepD_ship [OF hs pl]
  have step: "Step k g = CheckHits ?g3" if "\<not> gameOver g"
    using that by (simp add: Step_def)
  have ship_end: "s_x (the_ship (CheckHits ?g3) pl) = s_x (the_ship ?g2 pl) \<and>
      s_y (the_ship (CheckHits ?g3) pl) = s_y (the_ship ?g2 pl)"
    using s4 s3 by simp
  have dir_end: "p_dx (the_proj (CheckHits ?g3) pl i) = key_vx pl k \<and>
      p_dy (the_proj (CheckHits ?g3) pl i) = ?dy"
    using p4 by (auto simp: p3 UpdateProjectile_def Let_def)
  have shot_blocked: "\<not> p_active (the_proj (CheckHits ?g3) pl i) \<and>
      p_x (the_proj (CheckHits ?g3) pl i) = s_x (the_ship g pl) \<and>
      p_y (the_proj (CheckHits ?g3) pl i) = s_y (the_ship g pl)"
    if "blocked (gmap g) (s_x (the_ship g pl) + key_vx pl k) (s_y (the_ship g pl) + ?dy)"
    using p4 that by (auto simp: p3 UpdateProjectile_def Let_def)
  have shot_free: "p_x (the_proj (CheckHits ?g3) pl i) = s_x (the_ship g pl) + key_vx pl k \<and>
      p_y (the_proj (CheckHits ?g3) pl i) = s_y (the_ship g pl) + ?dy"
    if "\<not> blocked (gmap g) (s_x (the_ship g pl) + key_vx pl k) (s_y (the_ship g pl) + ?dy)"
    using p4 that by (auto simp: p3 UpdateProjectile_def Let_def)
  have first: "the_proj ?g1 pl i = ?shot"
    using a ns by simp
  from first b v pos_blocked pos_free step ship_end dir_end shot_blocked shot_free
  show ?thesis
    by (intro conjI impI; simp)
qed

theorem shot_spawns_before_movement_witness:
  "wf_game (InitGame zero_GameState) \<and> (0::nat) < MAX_PLAYERS \<and> fire_key 0 k_fire_right \<and>
   (0::nat) < MAX_PROJECTILES \<and> \<not> p_active (the_proj (InitGame zero_GameState) 0 0) \<and>
   \<not> gameOver (InitGame zero_GameState) \<and>
   s_x (the_ship (InitGame zero_GameState) 0) = 2 \<and> s_y (the_ship (InitGame zero_GameState) 0) = 2 \<and>
   key_vx 0 k_fire_right = 1 \<and> key_vy 0 k_fire_right = 0 \<and>
   \<not> blocked (gmap (InitGame zero_GameState)) (2 + 1) (2 + 0) \<and>
   the_proj (HandleInput k_fire_right (InitGame zero_GameState)) 0 0 = shot 2 2 1 0 True \<and>
   the_proj (UpdateShips (HandleInput k_fire_right (InitGame zero_GameState))) 0 0 =
     shot 2 2 1 0 True \<and>
   s_x (the_ship (UpdateShips (HandleInput k_fire_right (InitGame zero_GameState))) 0) = 3 \<and>
   s_y (the_ship (UpdateShips (HandleInput k_fire_right (InitGame zero_GameState))) 0) = 2 \<and>
   s_x (the_ship (Step k_fire_right (InitGame zero_GameState)) 0) = 3 \<and>
   s_y (the_ship (Step k_fire_right (InitGame zero_GameState)) 0) = 2 \<and>
   p_x (the_proj (Step k_fire_right (InitGame zero_GameState)) 0 0) = 3 \<and>
   p_y (the_proj (Step k_fire_right (InitGame zero_GameState)) 0 0) = 2"
proof -
  have wf: "wf_game (InitGame zero_GameState)"
    by (simp add: InitGame_eq wf_mk_game)
  have n: "(0::nat) < MAX_PLAYERS" "(0::nat) < MAX_PROJECTILES"
    by (simp_all add: MAX_PLAYERS_def MAX_PROJECTILES_def)
  have f: "fire_key 0 k_fire_right" "key_vx 0 k_fire_right = 1" "key_vy 0 k_fire_right = 0"
    by (simp_all add: key_defs k_fire_right_def)
  have free: "\<not> p_active (the_proj (InitGame zero_GameState) 0 0)"
    "\<forall>j<0::nat. p_active (the_proj (InitGame zero_GameState) 0 j)"
    by (simp_all add: InitGame_eq mk_ship_def idle_def)
  have pos: "s_x (the_ship (InitGame zero_GameState) 0) = 2"
    "s_y (the_ship (InitGame zero_GameState) 0) = 2"
    "\<not> gameOver (InitGame zero_GameState)" "gmap (InitGame zero_GameState) = bay_map"
    by (simp_all add: InitGame_eq mk_ship_def)
  have nb: "\<not> blocked bay_map 3 2"
    by (simp add: blocked_defs)
  note t = shot_spawns_before_movement [OF wf n(1) f(1) n(2) free, unfolded f pos]
  from t nb pos(3) have
    "the_proj (HandleInput k_fire_right (InitGame zero_GameState)) 0 0 = shot 2 2 1 0 True"
    "the_proj (UpdateShips (HandleInput k_fire_right (InitGame zero_GameState))) 0 0 =
      shot 2 2 1 0 True"
    "s_x (the_ship (UpdateShips (HandleInput k_fire_right (InitGame zero_GameState))) 0) = 3"
    "s_y (the_ship (UpdateShips (HandleInput k_fire_right (InitGame zero_GameState))) 0) = 2"
    "s_x (the_ship (Step k_fire_right (InitGame zero_GameState)) 0) = 3"
    "s_y (the_ship (Step k_fire_right (InitGame zero_GameState)) 0) = 2"
    "p_x (the_proj (Step k_fire_right (InitGame zero_GameState)) 0 0) = 3"
    "p_y (the_proj (Step k_fire_right (InitGame zero_GameState)) 0 0) = 2"
    by (simp_all add: shot_def Step_def)
  with wf n f free(1) pos nb show ?thesis
    by simp
qed

subsection \<open>C1: simultaneous hits\<close>

lemma hits_from_end: "length (projectiles (the_ship g att)) \<le> i \<Longrightarrow> hits_from i g att dfn = 0"
  by (simp add: hits_from_def)

lemma hits_from_step:
  "i < length (projectiles (the_ship g att)) \<Longrightarrow>
   hits_from i g att dfn =
     (if on_cell (the_ship g dfn) (the_proj g att i) then 1 else 0) + hits_from (i + 1) g att dfn"
  by (simp add: hits_from_def the_proj_def Cons_nth_drop_Suc [symmetric])

lemma hits_from_cong:
  "s_x (the_ship g' dfn) = s_x (the_ship g dfn) \<Longrightarrow> s_y (the_ship g' dfn) = s_y (the_ship g dfn) \<Longrightarrow>
   drop i (projectiles (the_ship g' att)) = drop i (projectiles (the_ship g att)) \<Longrightarrow>
   hits_from i g' att dfn = hits_from i g att dfn"
proof -
  assume "s_x (the_ship g' dfn) = s_x (the_ship g dfn)"
    and "s_y (the_ship g' dfn) = s_y (the_ship g dfn)"
  then have "on_cell (the_ship g' dfn) = on_cell (the_ship g dfn)"
    by (intro ext) (simp add: on_cell_def)
  moreover assume "drop i (projectiles (the_ship g' att)) = drop i (projectiles (the_ship g att))"
  ultimately show ?thesis
    by (simp add: hits_from_def)
qed

lemma HitLoop_count:
  "wf_game g \<Longrightarrow> att < 2 \<Longrightarrow> dfn < 2 \<Longrightarrow> att \<noteq> dfn \<Longrightarrow>
   (1 \<le> hits_from i g att dfn \<and> hp (the_ship g dfn) \<le> int (hits_from i g att dfn) \<longrightarrow>
      (\<exists>g'. HitLoop att dfn i g = Inl g' \<and> gameOver g' \<and> wf_game g' \<and>
         the_ship g' dfn = (the_ship g dfn)\<lparr>hp :=
            (if hp (the_ship g dfn) \<le> 0 then hp (the_ship g dfn) - 1 else 0)\<rparr> \<and>
         (\<exists>ps. the_ship g' att = (the_ship g att)\<lparr>projectiles := ps\<rparr>))) \<and>
   (\<not> (1 \<le> hits_from i g att dfn \<and> hp (the_ship g dfn) \<le> int (hits_from i g att dfn)) \<longrightarrow>
      (\<exists>g'. HitLoop att dfn i g = Inr g' \<and> gameOver g' = gameOver g \<and> wf_game g' \<and>
         the_ship g' dfn = (the_ship g dfn)\<lparr>hp :=
            hp (the_ship g dfn) - int (hits_from i g att dfn)\<rparr> \<and>
         (\<exists>ps. the_ship g' att = (the_ship g att)\<lparr>projectiles := ps\<rparr>)))"
proof (induction att dfn i g rule: HitLoop.induct)
  case (1 att dfn i g)
  note wf = "1.prems"(1) and att = "1.prems"(2) and dfn = "1.prems"(3) and ne = "1.prems"(4)
  note pls = wf_players [OF wf] and len = wf_projectiles [OF wf att]
  let ?h = "hp (the_ship g dfn)"
  let ?g1 = "upd_ship dfn (\<lambda>s. s\<lparr>hp := hp s - 1\<rparr>) g"
  let ?g2 = "upd_proj att i (\<lambda>p. p\<lparr>p_active := False\<rparr>) ?g1"
  show ?case
  proof (cases "i < MAX_PROJECTILES")
    case False
    then have n: "hits_from i g att dfn = 0"
      using len by (intro hits_from_end) (simp add: MAX_PROJECTILES_def)
    have "HitLoop att dfn i g = Inr g"
      using False by (subst HitLoop.simps) simp
    then show ?thesis
      using wf n by (auto intro: exI [of _ "projectiles (the_ship g att)"])
  next
    case True
    then have i: "i < 5" by (simp add: MAX_PROJECTILES_def)
    note step = hits_from_step [of i g att dfn, unfolded len, OF i]
    show ?thesis
    proof (cases "p_active (the_proj g att i) \<and> p_x (the_proj g att i) = s_x (the_ship g dfn)
              \<and> p_y (the_proj g att i) = s_y (the_ship g dfn)")
      case False
      then have n: "hits_from i g att dfn = hits_from (i + 1) g att dfn"
        using step by (simp add: on_cell_def)
      have "HitLoop att dfn i g = HitLoop att dfn (i + 1) g"
        using True False by (subst HitLoop.simps) auto
      with "1.IH"(2) [OF True False wf att dfn ne] n show ?thesis
        by simp
    next
      case hit: True
      then have n: "hits_from i g att dfn = 1 + hits_from (i + 1) g att dfn"
        using step by (simp add: on_cell_def)
      have wf2: "wf_game ?g2"
        using wf by (simp add: wf_upd_proj wf_upd_ship)
      have d2: "the_ship ?g2 dfn = (the_ship g dfn)\<lparr>hp := ?h - 1\<rparr>"
        using pls att dfn ne by (simp add: the_ship_upd_proj the_ship_upd_ship)
      have a2: "the_ship ?g2 att = (the_ship g att)\<lparr>projectiles :=
          (projectiles (the_ship g att))[i := (the_proj g att i)\<lparr>p_active := False\<rparr>]\<rparr>"
        using pls att dfn ne
        by (simp add: the_ship_upd_proj the_ship_upd_ship the_proj_def)
      have n2: "hits_from (i + 1) ?g2 att dfn = hits_from (i + 1) g att dfn"
        by (rule hits_from_cong) (simp_all add: d2 a2 drop_update_cancel)
      have go2: "gameOver ?g2 = gameOver g"
        by simp
      show ?thesis
      proof (cases "hp (the_ship ?g2 dfn) \<le> 0")
        case True
        then have "HitLoop att dfn i g = Inl (?g2\<lparr>gameOver := True\<rparr>)"
          using \<open>i < MAX_PROJECTILES\<close> hit by (subst HitLoop.simps) (simp add: Let_def)
        moreover from True have "?h \<le> 1" by (simp add: d2)
        ultimately show ?thesis
          using wf2 d2 a2 n by auto
      next
        case False
        then have h: "2 \<le> ?h" by (simp add: d2)
        have eq: "HitLoop att dfn i g = HitLoop att dfn (i + 1) ?g2"
          using \<open>i < MAX_PROJECTILES\<close> hit False by (subst HitLoop.simps) (simp add: Let_def)
        note ih = "1.IH"(1) [OF \<open>i < MAX_PROJECTILES\<close> hit refl refl False wf2 att dfn ne,
            unfolded n2 d2 go2]
        show ?thesis
        proof (cases "1 \<le> hits_from (i + 1) g att dfn \<and>
            ?h - 1 \<le> int (hits_from (i + 1) g att dfn)")
          case True
          with ih obtain g' ps where "HitLoop att dfn (i + 1) ?g2 = Inl g'" "gameOver g'"
            "wf_game g'" "the_ship g' dfn = (the_ship g dfn)\<lparr>hp := 0\<rparr>"
            "the_ship g' att = (the_ship ?g2 att)\<lparr>projectiles := ps\<rparr>"
            using h by auto
          then show ?thesis
            using True h n eq a2 by auto
        next
          case False
          with ih obtain g' ps where "HitLoop att dfn (i + 1) ?g2 = Inr g'"
            "gameOver g' = gameOver g" "wf_game g'"
            "the_ship g' dfn = (the_ship g dfn)\<lparr>hp := ?h - 1 - int (hits_from (i + 1) g att dfn)\<rparr>"
            "the_ship g' att = (the_ship ?g2 att)\<lparr>projectiles := ps\<rparr>"
            by auto
          then show ?thesis
            using False h n eq a2 by auto
        qed
      qed
    qed
  qed
qed

lemma wf_before_hits: "wf_game g \<Longrightarrow> wf_game (before_hits k g)"
  by (simp add: before_hits_def wf_HandleInput wf_UpdateShips wf_UpdateProjectiles)

lemma before_hits_duel_idle:
  "before_hits no_keys duel_state =
     mk_game (mk_ship 9 1 1 0 0 (shot 10 1 1 0 True))
       (mk_ship 10 1 1 0 0 (shot 9 1 (-1) 0 True)) False"
  by (simp add: before_hits_def duel_state_def HandleInput_mk_game UpdateShips_mk_game
      UpdateProjectiles_mk_game key_defs ship_defs blocked_defs)

lemma run_approach_keys: "run approach_keys = approach_state"
  unfolding run_def approach_keys_def InitGame_eq approach_state_def
  by (simp only: foldl_Cons foldl_Nil duel_1 duel_2 duel_3 duel_4 duel_5 duel_6 duel_7 duel_8
      duel_9)

lemma volley_1:
  "Step k_fire_B approach_state =
     mk_game (mk_ship 8 1 1 0 0 idle) (mk_ship 10 1 1 (-1) 0 (shot 10 1 (-1) 0 True)) False"
  by (simp add: step_defs approach_state_def k_fire_B_def)

lemma volley_2:
  "Step no_keys
     (mk_game (mk_ship 8 1 1 0 0 idle) (mk_ship 10 1 1 (-1) 0 (shot 10 1 (-1) 0 True)) False) =
     volley_state"
  by (simp add: step_defs volley_state_def)

lemma run_volley_keys: "run volley_keys = volley_state"
  by (simp add: volley_keys_def run_def [of "approach_keys @ [k_fire_B, no_keys]"]
      run_approach_keys [unfolded run_def] volley_1 volley_2)

lemmas before_defs = before_hits_def HandleInput_mk_game UpdateShips_mk_game
  UpdateProjectiles_mk_game key_defs ship_defs blocked_defs

lemma before_hits_duel_both_ram:
  "before_hits k_both_ram duel_state =
     mk_game (mk_ship 9 1 0 0 (-1) (shot 10 1 1 0 True))
       (mk_ship 10 1 0 0 (-1) (shot 9 1 (-1) 0 True)) True"
  by (simp add: before_defs duel_state_def k_both_ram_def)

lemma duel_both_ram:
  "Step k_both_ram duel_state =
     mk_game (mk_ship 9 1 0 0 (-1) (shot 10 1 1 0 True))
       (mk_ship 10 1 0 0 (-1) (shot 9 1 (-1) 0 True)) True"
  by (simp add: step_defs duel_state_def k_both_ram_def)

lemma before_hits_volley:
  "before_hits no_keys volley_state =
     mk_game (mk_ship 8 1 1 0 0 idle) (mk_ship 10 1 1 0 0 (shot 8 1 (-1) 0 True)) False"
  by (simp add: before_defs volley_state_def)

lemma volley_hit:
  "Step no_keys volley_state =
     mk_game (mk_ship 8 1 0 0 0 idle) (mk_ship 10 1 1 0 0 (shot 8 1 (-1) 0 False)) True"
  by (simp add: step_defs volley_state_def)

lemma before_hits_approach_fire:
  "before_hits k_fire_both approach_state = duel_state"
  by (simp add: before_defs approach_state_def duel_state_def k_fire_both_def)

lemma hits_mk_game:
  "hits (mk_game a b ov) 0 1 = length (filter (on_cell b) (projectiles a))"
  "hits (mk_game a b ov) 1 0 = length (filter (on_cell a) (projectiles b))"
  "hits (mk_game a b ov) 0 (Suc 0) = length (filter (on_cell b) (projectiles a))"
  "hits (mk_game a b ov) (Suc 0) 0 = length (filter (on_cell a) (projectiles b))"
  by (simp_all add: hits_def hits_from_def)

lemmas hits_defs = hits_mk_game on_cell_def mk_ship_def shot_def idle_def

lemma hits_examples:
  "hits (before_hits no_keys duel_state) 0 1 = 1" "hits (before_hits no_keys duel_state) 1 0 = 1"
  "hits (before_hits k_both_ram duel_state) 0 1 = 1"
  "hits (before_hits k_both_ram duel_state) 1 0 = 1"
  "hits (before_hits no_keys volley_state) 0 1 = 0" "hits (before_hits no_keys volley_state) 1 0 = 1"
  "hits (before_hits k_fire_both approach_state) 0 1 = 0"
  "hits (before_hits k_fire_both approach_state) 1 0 = 0"
  by (simp_all only: before_hits_duel_idle before_hits_duel_both_ram before_hits_volley
      before_hits_approach_fire) (simp_all add: duel_state_def hits_defs)

lemma hits_pos:
  "i < length (projectiles (the_ship g att)) \<Longrightarrow> on_cell (the_ship g dfn) (the_proj g att i) \<Longrightarrow>
   1 \<le> hits g att dfn"
proof -
  assume "i < length (projectiles (the_ship g att))"
    and "on_cell (the_ship g dfn) (the_proj g att i)"
  then have "the_proj g att i \<in> set (filter (on_cell (the_ship g dfn)) (projectiles (the_ship g att)))"
    by (simp add: the_proj_def)
  then have "0 < length (filter (on_cell (the_ship g dfn)) (projectiles (the_ship g att)))"
    by (rule length_pos_if_in_set)
  then show ?thesis
    by (simp add: hits_def hits_from_def Suc_le_eq)
qed

text \<open>What \<open>CheckHits\<close> does to the two healths and to \<open>gameOver\<close>, by the healths
  \<open>hA\<close>, \<open>hB\<close> and the numbers \<open>nA\<close>, \<open>nB\<close> of projectiles on target with which it
  is entered.\<close>

lemma CheckHits_order:
  assumes wf: "wf_game g"
  shows "(hp (the_ship g 0) \<le> 0 \<and> hp (the_ship g 1) \<le> 0 \<longrightarrow>
            CheckHits g = g\<lparr>gameOver := True\<rparr>) \<and>
         (\<not> (hp (the_ship g 0) \<le> 0 \<and> hp (the_ship g 1) \<le> 0) \<and>
          1 \<le> hits g 0 1 \<and> hp (the_ship g 1) \<le> int (hits g 0 1) \<longrightarrow>
            gameOver (CheckHits g) \<and>
            the_ship (CheckHits g) 1 =
              (the_ship g 1)\<lparr>hp := (if hp (the_ship g 1) \<le> 0 then hp (the_ship g 1) - 1 else 0)\<rparr> \<and>
            hp (the_ship (CheckHits g) 0) = hp (the_ship g 0)) \<and>
         (\<not> (hp (the_ship g 0) \<le> 0 \<and> hp (the_ship g 1) \<le> 0) \<and>
          \<not> (1 \<le> hits g 0 1 \<and> hp (the_ship g 1) \<le> int (hits g 0 1)) \<and>
          1 \<le> hits g 1 0 \<and> hp (the_ship g 0) \<le> int (hits g 1 0) \<longrightarrow>
            gameOver (CheckHits g) \<and>
            hp (the_ship (CheckHits g) 1) = hp (the_ship g 1) - int (hits g 0 1) \<and>
            hp (the_ship (CheckHits g) 0) =
              (if hp (the_ship g 0) \<le> 0 then hp (the_ship g 0) - 1 else 0)) \<and>
         (\<not> (hp (the_ship g 0) \<le> 0 \<and> hp (the_ship g 1) \<le> 0) \<and>
          \<not> (1 \<le> hits g 0 1 \<and> hp (the_ship g 1) \<le> int (hits g 0 1)) \<and>
          \<not> (1 \<le> hits g 1 0 \<and> hp (the_ship g 0) \<le> int (hits g 1 0)) \<longrightarrow>
            gameOver (CheckHits g) = gameOver g \<and>
            hp (the_ship (CheckHits g) 1) = hp (the_ship g 1) - int (hits g 0 1) \<and>
            hp (the_ship (CheckHits g) 0) = hp (the_ship g 0) - int (hits g 1 0))"
proof -
  let ?both = "hp (the_ship g 0) \<le> 0 \<and> hp (the_ship g 1) \<le> 0"
  let ?killB = "1 \<le> hits g 0 1 \<and> hp (the_ship g 1) \<le> int (hits g 0 1)"
  let ?killA = "1 \<le> hits g 1 0 \<and> hp (the_ship g 0) \<le> int (hits g 1 0)"
  note loopA = HitLoop_count [OF wf, of 0 1 0, folded hits_def]
  have a: "CheckHits g = g\<lparr>gameOver := True\<rparr>" if ?both
    using that by (simp add: CheckHits_def)
  have b: "gameOver (CheckHits g) \<and>
      the_ship (CheckHits g) 1 =
        (the_ship g 1)\<lparr>hp := (if hp (the_ship g 1) \<le> 0 then hp (the_ship g 1) - 1 else 0)\<rparr> \<and>
      hp (the_ship (CheckHits g) 0) = hp (the_ship g 0)"
    if nb: "\<not> ?both" and k: ?killB
  proof -
    from loopA k obtain g' ps where g': "HitLoop 0 1 0 g = Inl g'" "gameOver g'"
      "the_ship g' 1 = (the_ship g 1)\<lparr>hp :=
         (if hp (the_ship g 1) \<le> 0 then hp (the_ship g 1) - 1 else 0)\<rparr>"
      "the_ship g' 0 = (the_ship g 0)\<lparr>projectiles := ps\<rparr>"
      by auto
    have "CheckHits g = g'"
      using nb g'(1) by (auto simp: CheckHits_def)
    with g' show ?thesis by simp
  qed
  have cd: "\<exists>g1 ps. HitLoop 0 1 0 g = Inr g1 \<and> gameOver g1 = gameOver g \<and> wf_game g1 \<and>
      the_ship g1 1 = (the_ship g 1)\<lparr>hp := hp (the_ship g 1) - int (hits g 0 1)\<rparr> \<and>
      the_ship g1 0 = (the_ship g 0)\<lparr>projectiles := ps\<rparr>"
    if "\<not> ?killB"
    using loopA that by auto
  have c: "gameOver (CheckHits g) \<and>
      hp (the_ship (CheckHits g) 1) = hp (the_ship g 1) - int (hits g 0 1) \<and>
      hp (the_ship (CheckHits g) 0) = (if hp (the_ship g 0) \<le> 0 then hp (the_ship g 0) - 1 else 0)"
    if nb: "\<not> ?both" and nk: "\<not> ?killB" and k: ?killA
  proof -
    from cd [OF nk] obtain g1 ps where g1: "HitLoop 0 1 0 g = Inr g1" "wf_game g1"
      "the_ship g1 1 = (the_ship g 1)\<lparr>hp := hp (the_ship g 1) - int (hits g 0 1)\<rparr>"
      "the_ship g1 0 = (the_ship g 0)\<lparr>projectiles := ps\<rparr>"
      by auto
    have n: "hits g1 1 0 = hits g 1 0"
      unfolding hits_def by (rule hits_from_cong) (use g1 in simp_all)
    from HitLoop_count [OF g1(2), of 1 0 0, folded hits_def, unfolded n] k
    obtain g2 ps' where g2: "HitLoop 1 0 0 g1 = Inl g2" "gameOver g2"
      "the_ship g2 0 = (the_ship g1 0)\<lparr>hp :=
         (if hp (the_ship g1 0) \<le> 0 then hp (the_ship g1 0) - 1 else 0)\<rparr>"
      "the_ship g2 1 = (the_ship g1 1)\<lparr>projectiles := ps'\<rparr>"
      by (auto simp: g1)
    have "CheckHits g = g2"
      using nb g1(1) g2(1) by (auto simp: CheckHits_def)
    with g1 g2 show ?thesis by simp
  qed
  have d: "gameOver (CheckHits g) = gameOver g \<and>
      hp (the_ship (CheckHits g) 1) = hp (the_ship g 1) - int (hits g 0 1) \<and>
      hp (the_ship (CheckHits g) 0) = hp (the_ship g 0) - int (hits g 1 0)"
    if nb: "\<not> ?both" and nk: "\<not> ?killB" and nk': "\<not> ?killA"
  proof -
    from cd [OF nk] obtain g1 ps where g1: "HitLoop 0 1 0 g = Inr g1" "wf_game g1"
      "gameOver g1 = gameOver g"
      "the_ship g1 1 = (the_ship g 1)\<lparr>hp := hp (the_ship g 1) - int (hits g 0 1)\<rparr>"
      "the_ship g1 0 = (the_ship g 0)\<lparr>projectiles := ps\<rparr>"
      by auto
    have n: "hits g1 1 0 = hits g 1 0"
      unfolding hits_def by (rule hits_from_cong) (use g1 in simp_all)
    from HitLoop_count [OF g1(2), of 1 0 0, folded hits_def, unfolded n] nk'
    obtain g2 ps' where g2: "HitLoop 1 0 0 g1 = Inr g2" "gameOver g2 = gameOver g1"
      "the_ship g2 0 = (the_ship g1 0)\<lparr>hp := hp (the_ship g1 0) - int (hits g 1 0)\<rparr>"
      "the_ship g2 1 = (the_ship g1 1)\<lparr>projectiles := ps'\<rparr>"
      by (auto simp: g1)
    have "CheckHits g = g2"
      using nb g1(1) g2(1) by (auto simp: CheckHits_def)
    with g1 g2 show ?thesis by simp
  qed
  from a b c d show ?thesis by blast
qed

text \<open>
  C1 says that when both ships have health 1 and each has an active projectile on the cell
  of the other, one step brings both healths to 0 and the result is a tie, both directions
  being checked in every tick. The game \<open>duel_keys\<close> from the initial state, followed by
  a frame with no key pressed, is such a tick: when \<open>CheckHits\<close> runs in it, both ships
  have health 1, the shot of ship A is on the cell of ship B and the shot of ship B is on
  the cell of ship A. The step ends with ship B at health 0 and ship A still at health 1:
  ship A is the winner, and the shot of ship B is still active, not tested.
\<close>

theorem simultaneous_hits_are_not_a_tie:
  "\<not> gameOver (run duel_keys) \<and>
   hp (the_ship (before_hits no_keys (run duel_keys)) 0) = 1 \<and>
   hp (the_ship (before_hits no_keys (run duel_keys)) 1) = 1 \<and>
   p_active (the_proj (before_hits no_keys (run duel_keys)) 0 0) \<and>
   p_x (the_proj (before_hits no_keys (run duel_keys)) 0 0) =
     s_x (the_ship (before_hits no_keys (run duel_keys)) 1) \<and>
   p_y (the_proj (before_hits no_keys (run duel_keys)) 0 0) =
     s_y (the_ship (before_hits no_keys (run duel_keys)) 1) \<and>
   p_active (the_proj (before_hits no_keys (run duel_keys)) 1 0) \<and>
   p_x (the_proj (before_hits no_keys (run duel_keys)) 1 0) =
     s_x (the_ship (before_hits no_keys (run duel_keys)) 0) \<and>
   p_y (the_proj (before_hits no_keys (run duel_keys)) 1 0) =
     s_y (the_ship (before_hits no_keys (run duel_keys)) 0) \<and>
   \<not> (hp (the_ship (run (duel_keys @ [no_keys])) 0) = 0 \<and>
      hp (the_ship (run (duel_keys @ [no_keys])) 1) = 0) \<and>
   hp (the_ship (run (duel_keys @ [no_keys])) 0) = 1 \<and>
   hp (the_ship (run (duel_keys @ [no_keys])) 1) = 0 \<and>
   gameOver (run (duel_keys @ [no_keys])) \<and>
   result (run (duel_keys @ [no_keys])) = Winner 0 \<and>
   p_active (the_proj (run (duel_keys @ [no_keys])) 1 0)"
proof -
  have a: "\<not> gameOver (run duel_keys)"
    by (simp add: run_duel_keys duel_state_def)
  have b: "hp (the_ship (before_hits no_keys (run duel_keys)) 0) = 1 \<and>
      hp (the_ship (before_hits no_keys (run duel_keys)) 1) = 1 \<and>
      p_active (the_proj (before_hits no_keys (run duel_keys)) 0 0) \<and>
      p_x (the_proj (before_hits no_keys (run duel_keys)) 0 0) =
        s_x (the_ship (before_hits no_keys (run duel_keys)) 1) \<and>
      p_y (the_proj (before_hits no_keys (run duel_keys)) 0 0) =
        s_y (the_ship (before_hits no_keys (run duel_keys)) 1) \<and>
      p_active (the_proj (before_hits no_keys (run duel_keys)) 1 0) \<and>
      p_x (the_proj (before_hits no_keys (run duel_keys)) 1 0) =
        s_x (the_ship (before_hits no_keys (run duel_keys)) 0) \<and>
      p_y (the_proj (before_hits no_keys (run duel_keys)) 1 0) =
        s_y (the_ship (before_hits no_keys (run duel_keys)) 0)"
    by (simp add: run_duel_keys before_hits_duel_idle) (simp add: mk_ship_def shot_def)
  have c: "hp (the_ship (run (duel_keys @ [no_keys])) 0) = 1 \<and>
      hp (the_ship (run (duel_keys @ [no_keys])) 1) = 0 \<and>
      gameOver (run (duel_keys @ [no_keys])) \<and>
      result (run (duel_keys @ [no_keys])) = Winner 0 \<and>
      p_active (the_proj (run (duel_keys @ [no_keys])) 1 0)"
    by (simp add: run_snoc run_duel_keys duel_idle result_def) (simp add: mk_ship_def shot_def)
  from a b c show ?thesis by simp
qed

text \<open>
  C1, amended: in every step of a running game \<open>CheckHits\<close> works on the state after
  movement and advancement (\<open>before_hits\<close>), in a fixed order. With \<open>hA\<close>, \<open>hB\<close> the
  healths and \<open>nA\<close>, \<open>nB\<close> the numbers of active projectiles of ship A on the cell of
  ship B and of ship B on the cell of ship A in that state:
  \<^item> when both healths are 0 or below, no projectile is tested and only \<open>gameOver\<close> is
    set;
  \<^item> otherwise the projectiles of ship A are applied to ship B first. When they bring the
    health of ship B to 0 or below (\<open>nA \<ge> 1\<close> and \<open>hB \<le> nA\<close>), the function returns at
    that hit: the game is over, ship B ends at health 0 (at \<open>hB - 1\<close> when it was dead
    already) and is otherwise as before, so none of its projectiles was tested, and the
    health of ship A is as before;
  \<^item> only when they do not (\<open>nA = 0\<close> or \<open>hB > nA\<close>) are the projectiles of ship B
    applied to ship A: ship B ends at \<open>hB - nA\<close>, and ship A ends at 0 (at \<open>hA - 1\<close>
    when it was dead already) with the game over when \<open>nB \<ge> 1\<close> and \<open>hA \<le> nB\<close>, and
    at \<open>hA - nB\<close> with \<open>gameOver\<close> as \<open>UpdateShips\<close> left it otherwise.

  So when at hit resolution both ships have health 1 and each has an active projectile on
  the cell of the other, the step ends with ship B at health 0, ship A still at health 1
  and the game over; the result is ship A as the single winner, not a tie, and the
  projectile of ship B is still active.
\<close>

theorem CheckHits_resolves_A_first:
  fixes g :: GameState and k :: Keys
  defines "b \<equiv> before_hits k g"
  assumes "wf_game g" and "\<not> gameOver g"
  shows "(hp (the_ship b 0) \<le> 0 \<and> hp (the_ship b 1) \<le> 0 \<longrightarrow>
            Step k g = b\<lparr>gameOver := True\<rparr>) \<and>
         (\<not> (hp (the_ship b 0) \<le> 0 \<and> hp (the_ship b 1) \<le> 0) \<and>
          1 \<le> hits b 0 1 \<and> hp (the_ship b 1) \<le> int (hits b 0 1) \<longrightarrow>
            gameOver (Step k g) \<and>
            the_ship (Step k g) 1 =
              (the_ship b 1)\<lparr>hp := (if hp (the_ship b 1) \<le> 0 then hp (the_ship b 1) - 1 else 0)\<rparr> \<and>
            hp (the_ship (Step k g) 0) = hp (the_ship b 0)) \<and>
         (\<not> (hp (the_ship b 0) \<le> 0 \<and> hp (the_ship b 1) \<le> 0) \<and>
          \<not> (1 \<le> hits b 0 1 \<and> hp (the_ship b 1) \<le> int (hits b 0 1)) \<and>
          1 \<le> hits b 1 0 \<and> hp (the_ship b 0) \<le> int (hits b 1 0) \<longrightarrow>
            gameOver (Step k g) \<and>
            hp (the_ship (Step k g) 1) = hp (the_ship b 1) - int (hits b 0 1) \<and>
            hp (the_ship (Step k g) 0) =
              (if hp (the_ship b 0) \<le> 0 then hp (the_ship b 0) - 1 else 0)) \<and>
         (\<not> (hp (the_ship b 0) \<le> 0 \<and> hp (the_ship b 1) \<le> 0) \<and>
          \<not> (1 \<le> hits b 0 1 \<and> hp (the_ship b 1) \<le> int (hits b 0 1)) \<and>
          \<not> (1 \<le> hits b 1 0 \<and> hp (the_ship b 0) \<le> int (hits b 1 0)) \<longrightarrow>
            gameOver (Step k g) = gameOver b \<and>
            hp (the_ship (Step k g) 1) = hp (the_ship b 1) - int (hits b 0 1) \<and>
            hp (the_ship (Step k g) 0) = hp (the_ship b 0) - int (hits b 1 0)) \<and>
         (\<forall>i<MAX_PROJECTILES. \<forall>j<MAX_PROJECTILES.
            hp (the_ship b 0) = 1 \<and> hp (the_ship b 1) = 1 \<and>
            on_cell (the_ship b 1) (the_proj b 0 i) \<and> on_cell (the_ship b 0) (the_proj b 1 j) \<longrightarrow>
            hp (the_ship (Step k g) 1) = 0 \<and> hp (the_ship (Step k g) 0) = 1 \<and>
            gameOver (Step k g) \<and> result (Step k g) = Winner 0 \<and>
            p_active (the_proj (Step k g) 1 j))"
proof -
  have wf: "wf_game b"
    unfolding b_def using assms(2) by (rule wf_before_hits)
  have s: "Step k g = CheckHits b"
    using assms(3) by (simp add: Step_def before_hits_def b_def)
  note order = CheckHits_order [OF wf, folded s]
  have duel: "hp (the_ship (Step k g) 1) = 0 \<and> hp (the_ship (Step k g) 0) = 1 \<and>
      gameOver (Step k g) \<and> result (Step k g) = Winner 0 \<and> p_active (the_proj (Step k g) 1 j)"
    if "i < MAX_PROJECTILES" "j < MAX_PROJECTILES"
      and h: "hp (the_ship b 0) = 1" "hp (the_ship b 1) = 1"
      and on: "on_cell (the_ship b 1) (the_proj b 0 i)" "on_cell (the_ship b 0) (the_proj b 1 j)"
    for i j
  proof -
    from that have "i < length (projectiles (the_ship b 0))"
      using wf_projectiles [OF wf, of 0] by (simp add: MAX_PROJECTILES_def)
    from hits_pos [OF this on(1)] have "1 \<le> hits b 0 1" .
    with order h have "gameOver (Step k g)"
      and "the_ship (Step k g) 1 = (the_ship b 1)\<lparr>hp := 0\<rparr>"
      and "hp (the_ship (Step k g) 0) = 1"
      by simp_all
    with on(2) show ?thesis
      by (simp add: result_def the_proj_def on_cell_def)
  qed
  from order duel show ?thesis by blast
qed

theorem CheckHits_resolves_A_first_witness:
  "wf_game (run duel_keys) \<and> \<not> gameOver (run duel_keys) \<and>
   (0::nat) < MAX_PROJECTILES \<and>
   hp (the_ship (before_hits no_keys (run duel_keys)) 0) = 1 \<and>
   hp (the_ship (before_hits no_keys (run duel_keys)) 1) = 1 \<and>
   hits (before_hits no_keys (run duel_keys)) 0 1 = 1 \<and>
   hits (before_hits no_keys (run duel_keys)) 1 0 = 1 \<and>
   on_cell (the_ship (before_hits no_keys (run duel_keys)) 1)
     (the_proj (before_hits no_keys (run duel_keys)) 0 0) \<and>
   on_cell (the_ship (before_hits no_keys (run duel_keys)) 0)
     (the_proj (before_hits no_keys (run duel_keys)) 1 0) \<and>
   hp (the_ship (Step no_keys (run duel_keys)) 1) = 0 \<and>
   hp (the_ship (Step no_keys (run duel_keys)) 0) = 1 \<and>
   gameOver (Step no_keys (run duel_keys)) \<and>
   result (Step no_keys (run duel_keys)) = Winner 0 \<and>
   p_active (the_proj (Step no_keys (run duel_keys)) 1 0) \<and>
   hp (the_ship (before_hits k_both_ram (run duel_keys)) 0) = 0 \<and>
   hp (the_ship (before_hits k_both_ram (run duel_keys)) 1) = 0 \<and>
   hits (before_hits k_both_ram (run duel_keys)) 0 1 = 1 \<and>
   hits (before_hits k_both_ram (run duel_keys)) 1 0 = 1 \<and>
   Step k_both_ram (run duel_keys) = (before_hits k_both_ram (run duel_keys))\<lparr>gameOver := True\<rparr> \<and>
   hp (the_ship (Step k_both_ram (run duel_keys)) 0) = 0 \<and>
   hp (the_ship (Step k_both_ram (run duel_keys)) 1) = 0 \<and>
   wf_game (run volley_keys) \<and> \<not> gameOver (run volley_keys) \<and>
   hp (the_ship (before_hits no_keys (run volley_keys)) 0) = 1 \<and>
   hp (the_ship (before_hits no_keys (run volley_keys)) 1) = 1 \<and>
   hits (before_hits no_keys (run volley_keys)) 0 1 = 0 \<and>
   hits (before_hits no_keys (run volley_keys)) 1 0 = 1 \<and>
   gameOver (Step no_keys (run volley_keys)) \<and>
   hp (the_ship (Step no_keys (run volley_keys)) 1) = 1 \<and>
   hp (the_ship (Step no_keys (run volley_keys)) 0) = 0 \<and>
   wf_game (run approach_keys) \<and> \<not> gameOver (run approach_keys) \<and>
   hp (the_ship (before_hits k_fire_both (run approach_keys)) 0) = 1 \<and>
   hp (the_ship (before_hits k_fire_both (run approach_keys)) 1) = 1 \<and>
   hits (before_hits k_fire_both (run approach_keys)) 0 1 = 0 \<and>
   hits (before_hits k_fire_both (run approach_keys)) 1 0 = 0 \<and>
   \<not> gameOver (Step k_fire_both (run approach_keys)) \<and>
   hp (the_ship (Step k_fire_both (run approach_keys)) 1) = 1 \<and>
   hp (the_ship (Step k_fire_both (run approach_keys)) 0) = 1"
proof -
  have wf: "wf_game (run duel_keys)" "wf_game (run volley_keys)" "wf_game (run approach_keys)"
    by (simp_all add: run_duel_keys run_volley_keys run_approach_keys duel_state_def
        volley_state_def approach_state_def wf_mk_game)
  have no: "\<not> gameOver (run duel_keys)" "\<not> gameOver (run volley_keys)"
    "\<not> gameOver (run approach_keys)"
    by (simp_all add: run_duel_keys run_volley_keys run_approach_keys duel_state_def
        volley_state_def approach_state_def)
  have n: "(0::nat) < MAX_PROJECTILES"
    by (simp add: MAX_PROJECTILES_def)
  have h: "hp (the_ship (before_hits no_keys (run duel_keys)) 0) = 1"
    "hp (the_ship (before_hits no_keys (run duel_keys)) 1) = 1"
    "hp (the_ship (before_hits k_both_ram (run duel_keys)) 0) = 0"
    "hp (the_ship (before_hits k_both_ram (run duel_keys)) 1) = 0"
    "hp (the_ship (before_hits no_keys (run volley_keys)) 0) = 1"
    "hp (the_ship (before_hits no_keys (run volley_keys)) 1) = 1"
    "hp (the_ship (before_hits k_fire_both (run approach_keys)) 0) = 1"
    "hp (the_ship (before_hits k_fire_both (run approach_keys)) 1) = 1"
    "\<not> gameOver (before_hits k_fire_both (run approach_keys))"
    by (simp_all add: run_duel_keys run_volley_keys run_approach_keys before_hits_duel_idle
        before_hits_duel_both_ram before_hits_volley before_hits_approach_fire)
      (simp_all add: mk_ship_def duel_state_def)
  have c: "hits (before_hits no_keys (run duel_keys)) 0 1 = 1"
    "hits (before_hits no_keys (run duel_keys)) 1 0 = 1"
    "hits (before_hits k_both_ram (run duel_keys)) 0 1 = 1"
    "hits (before_hits k_both_ram (run duel_keys)) 1 0 = 1"
    "hits (before_hits no_keys (run volley_keys)) 0 1 = 0"
    "hits (before_hits no_keys (run volley_keys)) 1 0 = 1"
    "hits (before_hits k_fire_both (run approach_keys)) 0 1 = 0"
    "hits (before_hits k_fire_both (run approach_keys)) 1 0 = 0"
    by (simp_all only: run_duel_keys run_volley_keys run_approach_keys hits_examples)
  have on: "on_cell (the_ship (before_hits no_keys (run duel_keys)) 1)
      (the_proj (before_hits no_keys (run duel_keys)) 0 0)"
    "on_cell (the_ship (before_hits no_keys (run duel_keys)) 0)
      (the_proj (before_hits no_keys (run duel_keys)) 1 0)"
    by (simp_all add: run_duel_keys before_hits_duel_idle)
      (simp_all add: on_cell_def mk_ship_def shot_def)
  note t1 = CheckHits_resolves_A_first [OF wf(1) no(1), of no_keys]
  have r1: "hp (the_ship (Step no_keys (run duel_keys)) 1) = 0 \<and>
      hp (the_ship (Step no_keys (run duel_keys)) 0) = 1 \<and>
      gameOver (Step no_keys (run duel_keys)) \<and>
      result (Step no_keys (run duel_keys)) = Winner 0 \<and>
      p_active (the_proj (Step no_keys (run duel_keys)) 1 0)"
    using t1 n h(1,2) on by blast
  note t2 = CheckHits_resolves_A_first [OF wf(1) no(1), of k_both_ram]
  have r2: "Step k_both_ram (run duel_keys) =
      (before_hits k_both_ram (run duel_keys))\<lparr>gameOver := True\<rparr>"
    using t2 h(3,4) by simp
  have r2': "hp (the_ship (Step k_both_ram (run duel_keys)) 0) = 0"
    "hp (the_ship (Step k_both_ram (run duel_keys)) 1) = 0"
    using h(3,4) by (simp_all add: r2)
  note t3 = CheckHits_resolves_A_first [OF wf(2) no(2), of no_keys]
  have r3: "gameOver (Step no_keys (run volley_keys)) \<and>
      hp (the_ship (Step no_keys (run volley_keys)) 1) = 1 \<and>
      hp (the_ship (Step no_keys (run volley_keys)) 0) = 0"
    using t3 h(5,6) c(5,6) by simp
  note t4 = CheckHits_resolves_A_first [OF wf(3) no(3), of k_fire_both]
  have r4: "\<not> gameOver (Step k_fire_both (run approach_keys)) \<and>
      hp (the_ship (Step k_fire_both (run approach_keys)) 1) = 1 \<and>
      hp (the_ship (Step k_fire_both (run approach_keys)) 0) = 1"
    using t4 h(7,8,9) c(7,8) by simp
  from wf no n h(1-8) c on r1 r2 r2' r3 r4 show ?thesis
    by blast
qed

subsection \<open>C10: the tick in which a ship dies of a collision\<close>

lemma gameOver_before_hits:
  "wf_game g \<Longrightarrow> gameOver (UpdateShips (HandleInput k g)) \<Longrightarrow> gameOver (before_hits k g)"
  by (simp add: before_hits_def gameOver_UpdateProjectiles wf_UpdateShips wf_HandleInput)

lemma gameOver_CheckHits: "wf_game g \<Longrightarrow> gameOver g \<Longrightarrow> gameOver (CheckHits g)"
  using CheckHits_hit_step [of g] by (simp add: hit_step_def)

lemma duel_B_rams_ships:
  "UpdateShips (HandleInput kB_ram duel_state) =
     mk_game (mk_ship 9 1 1 0 0 (shot 9 1 1 0 True))
       (mk_ship 10 1 0 0 (-1) (shot 10 1 (-1) 0 True)) True"
  by (simp add: duel_state_def HandleInput_mk_game UpdateShips_mk_game key_defs ship_defs
      blocked_defs kB_ram_def)

lemma duel_A_rams_ships:
  "UpdateShips (HandleInput kA_ram duel_state) =
     mk_game (mk_ship 9 1 0 0 (-1) (shot 9 1 1 0 True))
       (mk_ship 10 1 1 0 0 (shot 10 1 (-1) 0 True)) True"
  by (simp add: duel_state_def HandleInput_mk_game UpdateShips_mk_game key_defs ship_defs
      blocked_defs kA_ram_def)

text \<open>
  C10: \<open>UpdateShips\<close> sets \<open>gameOver\<close> when a collision brings a health to 0 or below,
  and the loop of \<open>main\<close> tests the flag only at the start of an iteration. So the step
  in which a ship dies of a collision still runs \<open>UpdateProjectiles\<close> and \<open>CheckHits\<close>;
  the game is over after it, and every later step leaves the state as it is.

  Two continuations of the game \<open>duel_keys\<close>, in which both ships have health 1 and the
  two shots are about to arrive, show what this allows. When ship B rams the top wall
  (\<open>kB_ram\<close>), its health is 0 after \<open>UpdateShips\<close> and the game is over; in the same
  step the shot of ship A arrives and ship B ends with health -1. When ship A rams the
  top wall (\<open>kA_ram\<close>), its health is 0 after \<open>UpdateShips\<close>; in the same step its shot
  advances from (9, 1) to (10, 1) and takes the health of ship B from 1 to 0.
\<close>

theorem collision_death_completes_the_tick:
  "(wf_game g \<and> \<not> gameOver g \<and> gameOver (UpdateShips (HandleInput k g)) \<longrightarrow>
      Step k g = CheckHits (UpdateProjectiles (UpdateShips (HandleInput k g))) \<and>
      gameOver (Step k g) \<and> Step k' (Step k g) = Step k g) \<and>
   \<not> gameOver (run duel_keys) \<and>
   hp (the_ship (run duel_keys) 0) = 1 \<and> hp (the_ship (run duel_keys) 1) = 1 \<and>
   the_proj (run duel_keys) 0 0 = shot 9 1 1 0 True \<and>
   hp (the_ship (UpdateShips (HandleInput kB_ram (run duel_keys))) 1) = 0 \<and>
   gameOver (UpdateShips (HandleInput kB_ram (run duel_keys))) \<and>
   hp (the_ship (run (duel_keys @ [kB_ram])) 1) = -1 \<and>
   hp (the_ship (UpdateShips (HandleInput kA_ram (run duel_keys))) 0) = 0 \<and>
   gameOver (UpdateShips (HandleInput kA_ram (run duel_keys))) \<and>
   the_proj (run (duel_keys @ [kA_ram])) 0 0 = shot 10 1 1 0 False \<and>
   hp (the_ship (run (duel_keys @ [kA_ram])) 1) = 0 \<and>
   run (duel_keys @ [kA_ram, k']) = run (duel_keys @ [kA_ram])"
proof -
  have general: "Step k g = CheckHits (UpdateProjectiles (UpdateShips (HandleInput k g))) \<and>
      gameOver (Step k g) \<and> Step k' (Step k g) = Step k g"
    if "wf_game g" "\<not> gameOver g" "gameOver (UpdateShips (HandleInput k g))"
  proof -
    have s: "Step k g = CheckHits (before_hits k g)"
      using that(2) by (simp add: Step_def before_hits_def)
    have over: "gameOver (Step k g)"
      unfolding s using that(1,3)
      by (intro gameOver_CheckHits wf_before_hits gameOver_before_hits)
    from s over show ?thesis
      by (simp add: before_hits_def Step_def)
  qed
  have start: "\<not> gameOver (run duel_keys) \<and>
      hp (the_ship (run duel_keys) 0) = 1 \<and> hp (the_ship (run duel_keys) 1) = 1 \<and>
      the_proj (run duel_keys) 0 0 = shot 9 1 1 0 True"
    by (simp add: run_duel_keys duel_state_def mk_ship_def)
  have b_rams: "hp (the_ship (UpdateShips (HandleInput kB_ram (run duel_keys))) 1) = 0 \<and>
      gameOver (UpdateShips (HandleInput kB_ram (run duel_keys))) \<and>
      hp (the_ship (run (duel_keys @ [kB_ram])) 1) = -1"
    by (simp add: run_snoc run_duel_keys duel_B_rams_ships duel_B_rams) (simp add: mk_ship_def)
  have a_rams: "hp (the_ship (UpdateShips (HandleInput kA_ram (run duel_keys))) 0) = 0 \<and>
      gameOver (UpdateShips (HandleInput kA_ram (run duel_keys))) \<and>
      the_proj (run (duel_keys @ [kA_ram])) 0 0 = shot 10 1 1 0 False \<and>
      hp (the_ship (run (duel_keys @ [kA_ram])) 1) = 0"
    by (simp add: run_snoc run_duel_keys duel_A_rams_ships duel_A_rams) (simp add: mk_ship_def)
  have "run (duel_keys @ [kA_ram, k']) = Step k' (run (duel_keys @ [kA_ram]))"
    by (simp add: run_def)
  moreover have "gameOver (run (duel_keys @ [kA_ram]))"
    by (simp add: run_snoc run_duel_keys duel_A_rams)
  ultimately have frozen: "run (duel_keys @ [kA_ram, k']) = run (duel_keys @ [kA_ram])"
    by (simp add: Step_def)
  from general start b_rams a_rams frozen show ?thesis
    by blast
qed

theorem collision_death_completes_the_tick_witness:
  "wf_game duel_state \<and> \<not> gameOver duel_state \<and>
   gameOver (UpdateShips (HandleInput kB_ram duel_state)) \<and>
   Step kB_ram duel_state =
     CheckHits (UpdateProjectiles (UpdateShips (HandleInput kB_ram duel_state))) \<and>
   hp (the_ship (Step kB_ram duel_state) 1) = -1 \<and>
   gameOver (Step kB_ram duel_state) \<and>
   Step no_keys (Step kB_ram duel_state) = Step kB_ram duel_state"
proof -
  have pre: "wf_game duel_state" "\<not> gameOver duel_state"
    "gameOver (UpdateShips (HandleInput kB_ram duel_state))"
    by (simp_all add: duel_B_rams_ships) (simp_all add: duel_state_def wf_mk_game)
  have h: "hp (the_ship (Step kB_ram duel_state) 1) = -1"
    by (simp add: duel_B_rams mk_ship_def)
  from collision_death_completes_the_tick [of duel_state kB_ram no_keys] pre
  have "Step kB_ram duel_state =
      CheckHits (UpdateProjectiles (UpdateShips (HandleInput kB_ram duel_state))) \<and>
    gameOver (Step kB_ram duel_state) \<and>
    Step no_keys (Step kB_ram duel_state) = Step kB_ram duel_state"
    by blast
  with pre h show ?thesis by blast
qed

end
